theory Spec2Isabelle
  imports Main "HOL-Library.Sublist" "HOL-Library.Multiset"
begin

section \<open>The npm registry client of unpkg (src/modules/utils/npm.js)\<close>

text \<open>
  A shallow embedding of \<^verbatim>\<open>src/modules/utils/npm.js\<close>. A JavaScript string is a
  \<open>string\<close>: the bytes of its UTF-8 encoding (the markers the code looks for, \<open>@\<close>,
  \<open>/\<close> and \<open>_\<close>, are ASCII, so taking a prefix or splitting reads the same on bytes
  as on UTF-16 code units). An object used as a dictionary is an association list whose
  order is that of \<^verbatim>\<open>Object.keys\<close>; the lookup of a key sees the own keys only.
  An \<^verbatim>\<open>async\<close> function is the function from what its awaits deliver to its result: an
  error value \<open>Inl e\<close> is a rejected promise or a thrown exception, \<open>Inr v\<close> a value,
  and \<^verbatim>\<open>null\<close> is \<open>None\<close>.
\<close>

subsection \<open>String primitives of the language\<close>

definition startsWith :: "string \<Rightarrow> string \<Rightarrow> bool" where
  "startsWith s p = (take (length p) s = p)"

definition substring :: "string \<Rightarrow> nat \<Rightarrow> string" where
  "substring s n = drop n s"

text \<open>\<^verbatim>\<open>s.split(sep)\<close> for a separator of one character: never the empty list.\<close>

fun splitOn :: "char \<Rightarrow> string \<Rightarrow> string list" where
  "splitOn sep [] = [[]]"
| "splitOn sep (c # cs) =
     (if c = sep then [] # splitOn sep cs
      else (case splitOn sep cs of
              seg # segs \<Rightarrow> (c # seg) # segs
            | [] \<Rightarrow> [[c]]))"


text \<open>
  \<^verbatim>\<open>encodeURIComponent\<close>: the unreserved characters (letters, digits and
  \<^verbatim>\<open>- _ . ! ~ * ' ( )\<close>) stand for themselves, every other byte of the UTF-8 encoding
  becomes \<open>%\<close> and two upper-case hexadecimal digits.
\<close>

definition uriUnreserved :: "char \<Rightarrow> bool" where
  "uriUnreserved c =
     (c \<in> set ''ABCDEFGHIJKLMNOPQRSTUVWXYZabcdefghijklmnopqrstuvwxyz0123456789-_.!~*()''
      \<or> c = CHR 0x27)"

definition hexDigit :: "nat \<Rightarrow> char" where
  "hexDigit n = ''0123456789ABCDEF'' ! (n mod 16)"

definition percentEncode :: "char \<Rightarrow> string" where
  "percentEncode c =
     [CHR ''%'', hexDigit ((of_char c :: nat) div 16), hexDigit ((of_char c :: nat) mod 16)]"

definition encodeURIComponent :: "string \<Rightarrow> string" where
  "encodeURIComponent s =
     concat (map (\<lambda>c. if uriUnreserved c then [c] else percentEncode c) s)"

subsection \<open>Package names and request URLs\<close>

definition isScopedPackageName :: "string \<Rightarrow> bool" where
  "isScopedPackageName packageName = startsWith packageName ''@''"

definition encodePackageName :: "string \<Rightarrow> string" where
  "encodePackageName packageName =
     (if isScopedPackageName packageName
      then ''@'' @ encodeURIComponent (substring packageName 1)
      else encodeURIComponent packageName)"

text \<open>
  The two URLs the module requests. \<open>npmRegistryURL\<close> is the module constant read from
  the environment; \<^verbatim>\<open>url.parse\<close> only splits the URL into the host and the path that
  \<^verbatim>\<open>https.get\<close> is given, so a request is identified by its URL.
\<close>

definition infoURL :: "string \<Rightarrow> string \<Rightarrow> string" where
  "infoURL npmRegistryURL packageName =
     npmRegistryURL @ ''/'' @ encodePackageName packageName"



subsection \<open>Errors, responses and the collaborators of the module\<close>

datatype error = Error string | TypeError string | SyntaxError string

text \<open>
  Modelled from the spec: \<^verbatim>\<open>bufferStream\<close> (\<^verbatim>\<open>./bufferStream.js\<close>, not under src/)
  buffers the whole body of a response, so a response is its status code and its body
  text.
\<close>

record response =
  statusCode :: nat
  body :: string

text \<open>
  The registry document \<^verbatim>\<open>{ versions: {version: {...}}, "dist-tags": {tag: version} }\<close>
  and the value \<^verbatim>\<open>{ versions, tags }\<close> derived from it. \<open>'v\<close> is the type of the JSON
  values held by the fields of a version's sub-document; the code never looks inside
  them.
\<close>

type_synonym 'v document = "(string \<times> 'v) list"

record 'v packageInfo =
  info_versions :: "(string \<times> 'v document) list"
  dist_tags :: "(string \<times> string) list"

record versionsAndTags =
  versions :: "string list"
  tags :: "(string \<times> string) list"

text \<open>
  The \<^verbatim>\<open>semver\<close> package. \<^verbatim>\<open>lt\<close> and \<^verbatim>\<open>gt\<close> throw a \<^verbatim>\<open>TypeError\<close> on a string that
  is no version.
\<close>

record semver =
  lt :: "string \<Rightarrow> string \<Rightarrow> error + bool"
  gt :: "string \<Rightarrow> string \<Rightarrow> error + bool"
  maxSatisfying :: "string list \<Rightarrow> string \<Rightarrow> error + string option"

text \<open>
  What the module imports or reads from its environment: the registry URL, the network
  (\<^verbatim>\<open>https.get\<close>: the error of a failed connection, or the response to a GET of the URL),
  \<^verbatim>\<open>JSON.parse\<close> and \<^verbatim>\<open>JSON.stringify\<close> at the types they are used at (a body may parse
  to a falsy value, \<open>None\<close>), and \<^verbatim>\<open>semver\<close>.
\<close>

record 'v env =
  npmRegistryURL :: string
  get :: "string \<Rightarrow> error + response"
  parseInfo :: "string \<Rightarrow> error + 'v packageInfo option"
  stringifyVersionsAndTags :: "versionsAndTags \<Rightarrow> string"
  parseVersionsAndTags :: "string \<Rightarrow> error + versionsAndTags"
  stringifyConfig :: "'v document \<Rightarrow> string"
  parseConfig :: "string \<Rightarrow> error + 'v document"
  semverLib :: semver

subsection \<open>Constants\<close>

definition oneMegabyte :: nat where
  "oneMegabyte = 1024 * 1024"

definition oneSecond :: nat where
  "oneSecond = 1000"

definition oneMinute :: nat where
  "oneMinute = oneSecond * 60"

definition notFound :: string where
  "notFound = []"

subsection \<open>The cache\<close>

text \<open>
  Modelled from the spec: the Metadata Cache (the \<^verbatim>\<open>lru-cache\<close> package, not under
  src/), as section 4.1 of the specification describes it and as the module configures
  it (\<^verbatim>\<open>max\<close> 40 MiB, \<^verbatim>\<open>length: Buffer.byteLength\<close>). The entries stand most recently
  used first. Times are milliseconds, as \<^verbatim>\<open>Date.now()\<close> gives them. An entry is absent
  strictly after its age exceeds its \<open>maxAge\<close>; a lookup that finds nothing leaves the
  store as it was, one that finds an entry makes it the most recently used. A store
  replaces the entry of its key and evicts from the least recently used end while the
  byte budget is exceeded; a value larger than the budget is not stored.
\<close>

record entry =
  entryKey :: string
  entryValue :: string
  entryLength :: nat
  entryNow :: nat
  entryMaxAge :: nat

type_synonym cache = "entry list"

definition cacheMax :: nat where
  "cacheMax = oneMegabyte * 40"

definition byteLength :: "string \<Rightarrow> nat" where
  "byteLength s = length s"

definition isStale :: "nat \<Rightarrow> entry \<Rightarrow> bool" where
  "isStale now e = (now - entryNow e > entryMaxAge e)"

definition cacheGet :: "cache \<Rightarrow> string \<Rightarrow> nat \<Rightarrow> string option \<times> cache" where
  "cacheGet c k now =
     (case find (\<lambda>e. entryKey e = k) c of
        None \<Rightarrow> (None, c)
      | Some e \<Rightarrow>
          if isStale now e then (None, c)
          else (Some (entryValue e), e # filter (\<lambda>x. entryKey x \<noteq> k) c))"

function trim :: "cache \<Rightarrow> cache" where
  "trim c = (if cacheMax < sum_list (map entryLength c) then trim (butlast c) else c)"
  by pat_completeness auto
termination
proof (relation "measure length")
  show "wf (measure length)"
    by simp
next
  fix c :: cache
  assume "cacheMax < sum_list (map entryLength c)"
  then have "c \<noteq> []"
    by auto
  then show "(butlast c, c) \<in> measure length"
    by simp
qed

declare trim.simps [simp del]

definition cacheSet :: "cache \<Rightarrow> string \<Rightarrow> string \<Rightarrow> nat \<Rightarrow> nat \<Rightarrow> cache" where
  "cacheSet c k v maxAge now =
     (let rest = filter (\<lambda>x. entryKey x \<noteq> k) c in
      if cacheMax < byteLength v then rest
      else trim (\<lparr>entryKey = k, entryValue = v, entryLength = byteLength v,
                  entryNow = now, entryMaxAge = maxAge\<rparr> # rest))"

subsection \<open>Fetching the registry document\<close>

text \<open>A number inside a template literal: its decimal digits.\<close>

fun showNat :: "nat \<Rightarrow> string" where
  "showNat n =
     (if n < 10 then [char_of (48 + n)]
      else showNat (n div 10) @ [char_of (48 + n mod 10)])"

declare showNat.simps [simp del]

definition fetchPackageInfo :: "'v env \<Rightarrow> string \<Rightarrow> error + 'v packageInfo option" where
  "fetchPackageInfo e packageName =
     (case get e (infoURL (npmRegistryURL e) packageName) of
        Inl err \<Rightarrow> Inl err
      | Inr res \<Rightarrow>
          if statusCode res = 200 then parseInfo e (body res)
          else if statusCode res = 404 then Inr None
          else Inl (Error (''Failed to fetch info for '' @ packageName
                 @ [CHR 0x0A] @ ''status: '' @ showNat (statusCode res)
                 @ [CHR 0x0A] @ ''data: '' @ body res)))"

definition fetchVersionsAndTags :: "'v env \<Rightarrow> string \<Rightarrow> error + versionsAndTags option" where
  "fetchVersionsAndTags e packageName =
     (case fetchPackageInfo e packageName of
        Inl err \<Rightarrow> Inl err
      | Inr None \<Rightarrow> Inr None
      | Inr (Some info) \<Rightarrow>
          Inr (Some \<lparr>versions = map fst (info_versions info), tags = dist_tags info\<rparr>))"

subsection \<open>Versions and tags, through the cache\<close>

text \<open>
  The cache is module state: a function takes it and returns it. \<open>now\<close> is the time
  of the lookup and \<open>later\<close> the time of the store, after the fetch has been awaited.
\<close>

definition getVersionsAndTags ::
  "'v env \<Rightarrow> cache \<Rightarrow> nat \<Rightarrow> nat \<Rightarrow> string \<Rightarrow> (error + versionsAndTags option) \<times> cache" where
  "getVersionsAndTags e c now later packageName =
     (let cacheKey = ''versions-'' @ packageName;
          (cacheValue, c1) = cacheGet c cacheKey now
      in case cacheValue of
           Some s \<Rightarrow>
             if s = notFound then (Inr None, c1)
             else (case parseVersionsAndTags e s of
                     Inl err \<Rightarrow> (Inl err, c1)
                   | Inr v \<Rightarrow> (Inr (Some v), c1))
         | None \<Rightarrow>
             (case fetchVersionsAndTags e packageName of
                Inl err \<Rightarrow> (Inl err, c1)
              | Inr None \<Rightarrow> (Inr None, cacheSet c1 cacheKey notFound (5 * oneMinute) later)
              | Inr (Some v) \<Rightarrow>
                  (Inr (Some v),
                   cacheSet c1 cacheKey (stringifyVersionsAndTags e v) oneMinute later)))"

definition byVersion :: "semver \<Rightarrow> string \<Rightarrow> string \<Rightarrow> error + int" where
  "byVersion sv a b =
     (case lt sv a b of
        Inl err \<Rightarrow> Inl err
      | Inr True \<Rightarrow> Inr (- 1)
      | Inr False \<Rightarrow>
          (case gt sv a b of
             Inl err \<Rightarrow> Inl err
           | Inr True \<Rightarrow> Inr 1
           | Inr False \<Rightarrow> Inr 0))"

text \<open>
  \<^verbatim>\<open>Array.prototype.sort\<close> with a comparator. The language fixes the result for a
  consistent comparator (the stable sorted arrangement) and leaves the sequence of
  comparisons to the engine; here each element is inserted into the sorted rest, before
  the first element it does not come after. An exception of the comparator ends the
  sort.
\<close>

fun insertBy :: "('a \<Rightarrow> 'a \<Rightarrow> error + int) \<Rightarrow> 'a \<Rightarrow> 'a list \<Rightarrow> error + 'a list" where
  "insertBy cmp x [] = Inr [x]"
| "insertBy cmp x (y # ys) =
     (case cmp x y of
        Inl err \<Rightarrow> Inl err
      | Inr r \<Rightarrow>
          if r \<le> 0 then Inr (x # y # ys)
          else (case insertBy cmp x ys of
                  Inl err \<Rightarrow> Inl err
                | Inr zs \<Rightarrow> Inr (y # zs)))"

fun sortBy :: "('a \<Rightarrow> 'a \<Rightarrow> error + int) \<Rightarrow> 'a list \<Rightarrow> error + 'a list" where
  "sortBy cmp [] = Inr []"
| "sortBy cmp (x # xs) =
     (case sortBy cmp xs of
        Inl err \<Rightarrow> Inl err
      | Inr ys \<Rightarrow> insertBy cmp x ys)"

definition getAvailableVersions ::
  "'v env \<Rightarrow> cache \<Rightarrow> nat \<Rightarrow> nat \<Rightarrow> string \<Rightarrow> (error + string list) \<times> cache" where
  "getAvailableVersions e c now later packageName =
     (case getVersionsAndTags e c now later packageName of
        (Inl err, c') \<Rightarrow> (Inl err, c')
      | (Inr (Some versionsAndTags), c') \<Rightarrow>
          (sortBy (byVersion (semverLib e)) (versions versionsAndTags), c')
      | (Inr None, c') \<Rightarrow> (Inr [], c'))"

text \<open>The parameter \<^verbatim>\<open>range\<close> of the source is \<open>rng\<close> here, and \<open>rng'\<close> once reassigned.\<close>

definition resolveVersion ::
  "'v env \<Rightarrow> cache \<Rightarrow> nat \<Rightarrow> nat \<Rightarrow> string \<Rightarrow> string \<Rightarrow> (error + string option) \<times> cache" where
  "resolveVersion e c now later packageName rng =
     (case getVersionsAndTags e c now later packageName of
        (Inl err, c') \<Rightarrow> (Inl err, c')
      | (Inr (Some versionsAndTags), c') \<Rightarrow>
          (let rng' = (case map_of (tags versionsAndTags) rng of
                         Some target \<Rightarrow> target
                       | None \<Rightarrow> rng)
           in if rng' \<in> set (versions versionsAndTags) then (Inr (Some rng'), c')
              else (maxSatisfying (semverLib e) (versions versionsAndTags) rng', c'))
      | (Inr None, c') \<Rightarrow> (Inr None, c'))"

subsection \<open>Package configs\<close>

definition packageConfigExcludeKeys :: "string list" where
  "packageConfigExcludeKeys =
     [''browserify'', ''bugs'', ''directories'', ''engines'', ''files'', ''homepage'',
      ''keywords'', ''maintainers'', ''scripts'']"

text \<open>
  \<^verbatim>\<open>memo[key] = doc[key]\<close> on the object \<open>memo\<close>: the key keeps its place if it is there
  already and goes last otherwise.
\<close>

fun assign :: "'v document \<Rightarrow> string \<Rightarrow> 'v \<Rightarrow> 'v document" where
  "assign [] k v = [(k, v)]"
| "assign ((k', v') # kvs) k v =
     (if k' = k then (k, v) # kvs else (k', v') # assign kvs k v)"

definition cleanPackageConfig :: "'v document \<Rightarrow> 'v document" where
  "cleanPackageConfig doc =
     fold (\<lambda>key memo.
             if \<not> startsWith key ''_'' \<and> key \<notin> set packageConfigExcludeKeys
             then (case map_of doc key of
                     Some v \<Rightarrow> assign memo key v
                   | None \<Rightarrow> memo)
             else memo)
          (map fst doc) []"

text \<open>The condition under which \<^verbatim>\<open>cleanPackageConfig\<close> copies a key.\<close>

definition keptKey :: "string \<Rightarrow> bool" where
  "keptKey key = (\<not> startsWith key ''_'' \<and> key \<notin> set packageConfigExcludeKeys)"

definition fetchPackageConfig :: "'v env \<Rightarrow> string \<Rightarrow> string \<Rightarrow> error + 'v document option" where
  "fetchPackageConfig e packageName version =
     (case fetchPackageInfo e packageName of
        Inl err \<Rightarrow> Inl err
      | Inr None \<Rightarrow> Inr None
      | Inr (Some info) \<Rightarrow>
          (case map_of (info_versions info) version of
             None \<Rightarrow> Inr None
           | Some doc \<Rightarrow> Inr (Some (cleanPackageConfig doc))))"

definition getPackageConfig ::
  "'v env \<Rightarrow> cache \<Rightarrow> nat \<Rightarrow> nat \<Rightarrow> string \<Rightarrow> string \<Rightarrow> (error + 'v document option) \<times> cache" where
  "getPackageConfig e c now later packageName version =
     (let cacheKey = ''config-'' @ packageName @ ''-'' @ version;
          (cacheValue, c1) = cacheGet c cacheKey now
      in case cacheValue of
           Some s \<Rightarrow>
             if s = notFound then (Inr None, c1)
             else (case parseConfig e s of
                     Inl err \<Rightarrow> (Inl err, c1)
                   | Inr v \<Rightarrow> (Inr (Some v), c1))
         | None \<Rightarrow>
             (case fetchPackageConfig e packageName version of
                Inl err \<Rightarrow> (Inl err, c1)
              | Inr None \<Rightarrow> (Inr None, cacheSet c1 cacheKey notFound (5 * oneMinute) later)
              | Inr (Some v) \<Rightarrow>
                  (Inr (Some v), cacheSet c1 cacheKey (stringifyConfig e v) oneMinute later)))"

subsection \<open>Package archives\<close>


subsection \<open>What the module expects of \<^verbatim>\<open>semver\<close>\<close>

text \<open>
  The contract of the package, relative to the versions \<open>valid\<close>, the precedence
  \<open>prec\<close> and the relation \<open>satisfies\<close> between a version and a range: \<^verbatim>\<open>lt\<close> and
  \<^verbatim>\<open>gt\<close> decide the precedence of two versions; precedence is a strict weak order
  (versions that differ in build metadata only are distinct strings of equal
  precedence); \<^verbatim>\<open>maxSatisfying\<close> returns a version of the list that satisfies the range
  and that no satisfying version of the list exceeds, and \<^verbatim>\<open>null\<close> if none satisfies.
\<close>

definition comparesBy :: "semver \<Rightarrow> (string \<Rightarrow> bool) \<Rightarrow> (string \<Rightarrow> string \<Rightarrow> bool) \<Rightarrow> bool" where
  "comparesBy sv valid prec =
     (\<forall>a b. valid a \<longrightarrow> valid b \<longrightarrow>
        lt sv a b = Inr (prec a b) \<and> gt sv a b = Inr (prec b a))"

definition precedence :: "(string \<Rightarrow> bool) \<Rightarrow> (string \<Rightarrow> string \<Rightarrow> bool) \<Rightarrow> bool" where
  "precedence valid prec =
     ((\<forall>a. valid a \<longrightarrow> \<not> prec a a) \<and>
      (\<forall>a b c. valid a \<longrightarrow> valid b \<longrightarrow> valid c \<longrightarrow> prec a b \<longrightarrow> prec b c \<longrightarrow> prec a c) \<and>
      (\<forall>a b c. valid a \<longrightarrow> valid b \<longrightarrow> valid c \<longrightarrow> prec a c \<longrightarrow> prec a b \<or> prec b c))"

definition maximalSatisfying ::
  "(string \<Rightarrow> string \<Rightarrow> bool) \<Rightarrow> (string \<Rightarrow> string \<Rightarrow> bool) \<Rightarrow> string list \<Rightarrow> string
     \<Rightarrow> string option \<Rightarrow> bool" where
  "maximalSatisfying prec satisfies vs r result =
     (case result of
        None \<Rightarrow> \<forall>v \<in> set vs. \<not> satisfies v r
      | Some m \<Rightarrow>
          m \<in> set vs \<and> satisfies m r \<and> (\<forall>v \<in> set vs. satisfies v r \<longrightarrow> \<not> prec m v))"

definition selectsMax ::
  "semver \<Rightarrow> (string \<Rightarrow> bool) \<Rightarrow> (string \<Rightarrow> string \<Rightarrow> bool) \<Rightarrow> (string \<Rightarrow> string \<Rightarrow> bool) \<Rightarrow> bool" where
  "selectsMax sv valid prec satisfies =
     (\<forall>vs r. (\<forall>v \<in> set vs. valid v) \<longrightarrow>
        (\<exists>result. maxSatisfying sv vs r = Inr result
                  \<and> maximalSatisfying prec satisfies vs r result))"

subsection \<open>A reference \<^verbatim>\<open>semver\<close> for plain versions\<close>

text \<open>
  Modelled from the spec: the semantic-version collaborator (the \<^verbatim>\<open>semver\<close> package, not
  under src/), for the plain versions \<^verbatim>\<open>MAJOR.MINOR.PATCH\<close> and the ranges \<^verbatim>\<open>*\<close>,
  \<^verbatim>\<open>X.Y.Z\<close>, \<^verbatim>\<open>^X.Y.Z\<close> and \<^verbatim>\<open>~X.Y.Z\<close>. Every other string is no version, or no range.
  The operations of the module take their \<^verbatim>\<open>semver\<close> as a parameter; this one is the
  instance at which they are run on concrete inputs.
\<close>

definition isDigit :: "char \<Rightarrow> bool" where
  "isDigit c = (48 \<le> (of_char c :: nat) \<and> (of_char c :: nat) \<le> 57)"

definition numericIdentifier :: "string \<Rightarrow> nat option" where
  "numericIdentifier s =
     (if s \<noteq> [] \<and> list_all isDigit s \<and> (hd s \<noteq> CHR ''0'' \<or> length s = 1)
      then Some (fold (\<lambda>c n. 10 * n + ((of_char c :: nat) - 48)) s 0)
      else None)"

type_synonym plainVersion = "nat \<times> nat \<times> nat"

definition parseVersion :: "string \<Rightarrow> plainVersion option" where
  "parseVersion s =
     (case map numericIdentifier (splitOn CHR ''.'' s) of
        [Some major, Some minor, Some patch] \<Rightarrow> Some (major, minor, patch)
      | _ \<Rightarrow> None)"

fun precedes :: "plainVersion \<Rightarrow> plainVersion \<Rightarrow> bool" where
  "precedes (a, b, c) (a', b', c') =
     (a < a' \<or> (a = a' \<and> (b < b' \<or> (b = b' \<and> c < c'))))"

text \<open>A range of the fragment: every version, or the versions from a lower bound up to
  and excluding an upper bound.\<close>

datatype plainRange = AnyVersion | Between plainVersion plainVersion

fun caretUpper :: "plainVersion \<Rightarrow> plainVersion" where
  "caretUpper (major, minor, patch) =
     (if 0 < major then (major + 1, 0, 0)
      else if 0 < minor then (0, minor + 1, 0)
      else (0, 0, patch + 1))"

fun tildeUpper :: "plainVersion \<Rightarrow> plainVersion" where
  "tildeUpper (major, minor, patch) = (major, minor + 1, 0)"

fun exactUpper :: "plainVersion \<Rightarrow> plainVersion" where
  "exactUpper (major, minor, patch) = (major, minor, patch + 1)"

definition parseRange :: "string \<Rightarrow> plainRange option" where
  "parseRange r =
     (if r = ''*'' then Some AnyVersion
      else if startsWith r ''^''
      then map_option (\<lambda>v. Between v (caretUpper v)) (parseVersion (substring r 1))
      else if startsWith r ''~''
      then map_option (\<lambda>v. Between v (tildeUpper v)) (parseVersion (substring r 1))
      else map_option (\<lambda>v. Between v (exactUpper v)) (parseVersion r))"

fun inRange :: "plainVersion \<Rightarrow> plainRange \<Rightarrow> bool" where
  "inRange v AnyVersion = True"
| "inRange v (Between lower upper) = (\<not> precedes v lower \<and> precedes v upper)"

definition plainValid :: "string \<Rightarrow> bool" where
  "plainValid v = (parseVersion v \<noteq> None)"

definition plainLess :: "string \<Rightarrow> string \<Rightarrow> bool" where
  "plainLess a b =
     (case (parseVersion a, parseVersion b) of
        (Some x, Some y) \<Rightarrow> precedes x y
      | _ \<Rightarrow> False)"

definition plainSatisfies :: "string \<Rightarrow> string \<Rightarrow> bool" where
  "plainSatisfies v r =
     (case (parseVersion v, parseRange r) of
        (Some x, Some p) \<Rightarrow> inRange x p
      | _ \<Rightarrow> False)"

definition plainCompare :: "string \<Rightarrow> string \<Rightarrow> error + bool" where
  "plainCompare a b =
     (if \<not> plainValid a then Inl (TypeError (''Invalid Version: '' @ a))
      else if \<not> plainValid b then Inl (TypeError (''Invalid Version: '' @ b))
      else Inr (plainLess a b))"

definition plainMaxSatisfying :: "string list \<Rightarrow> string \<Rightarrow> error + string option" where
  "plainMaxSatisfying vs r =
     Inr (fold (\<lambda>v best.
                  if plainSatisfies v r \<and> (case best of None \<Rightarrow> True | Some m \<Rightarrow> plainLess m v)
                  then Some v else best)
               vs None)"

definition plainSemver :: semver where
  "plainSemver =
     \<lparr>lt = plainCompare, gt = (\<lambda>a b. plainCompare b a), maxSatisfying = plainMaxSatisfying\<rparr>"

subsection \<open>\<^verbatim>\<open>JSON.stringify\<close> and \<^verbatim>\<open>JSON.parse\<close>\<close>

text \<open>
  The two builtins on JSON values, for the instance of the environment in which the
  cache holds JSON text. A number is a value of a type \<open>'n\<close> of its own: what the language
  prints for it and reads from a number literal (IEEE doubles, their shortest decimal
  form) is the pair of functions \<open>sh\<close> and \<open>rd\<close> that the printer and the parser take.
  \<^verbatim>\<open>JSON.stringify\<close> prints without white space and escapes the quote, the backslash
  and the control characters of a string; \<^verbatim>\<open>JSON.parse\<close> reads white space between
  tokens, every escape (a \<^verbatim>\<open>\uXXXX\<close> escape as the UTF-8 bytes of its code point, a
  surrogate pair as one code point), and gives a key that occurs twice its first place
  and its last value. The parser runs on fuel, one unit per nested call; a text never
  needs more than its length.
\<close>

datatype 'n json =
    JNull
  | JBool bool
  | JNumber 'n
  | JString string
  | JArray "'n json list"
  | JObject "(string \<times> 'n json) list"

definition lowerHex :: "nat \<Rightarrow> char" where
  "lowerHex n = ''0123456789abcdef'' ! (n mod 16)"

definition quoteChar :: "char \<Rightarrow> string" where
  "quoteChar c =
     (if c = CHR 0x22 then [CHR 0x5C, CHR 0x22]
      else if c = CHR 0x5C then [CHR 0x5C, CHR 0x5C]
      else if c = CHR 0x08 then [CHR 0x5C, CHR ''b'']
      else if c = CHR 0x0C then [CHR 0x5C, CHR ''f'']
      else if c = CHR 0x0A then [CHR 0x5C, CHR ''n'']
      else if c = CHR 0x0D then [CHR 0x5C, CHR ''r'']
      else if c = CHR 0x09 then [CHR 0x5C, CHR ''t'']
      else if (of_char c :: nat) < 32
      then [CHR 0x5C, CHR ''u'', CHR ''0'', CHR ''0'',
            lowerHex ((of_char c :: nat) div 16), lowerHex ((of_char c :: nat) mod 16)]
      else [c])"

definition quoteJSONString :: "string \<Rightarrow> string" where
  "quoteJSONString s = [CHR 0x22] @ concat (map quoteChar s) @ [CHR 0x22]"

fun joinWith :: "string \<Rightarrow> string list \<Rightarrow> string" where
  "joinWith sep [] = []"
| "joinWith sep [x] = x"
| "joinWith sep (x # y # ys) = x @ sep @ joinWith sep (y # ys)"

fun JSON_stringify :: "('n \<Rightarrow> string) \<Rightarrow> 'n json \<Rightarrow> string" where
  "JSON_stringify sh JNull = ''null''"
| "JSON_stringify sh (JBool b) = (if b then ''true'' else ''false'')"
| "JSON_stringify sh (JNumber n) = sh n"
| "JSON_stringify sh (JString s) = quoteJSONString s"
| "JSON_stringify sh (JArray xs) = ''['' @ joinWith '','' (map (JSON_stringify sh) xs) @ '']''"
| "JSON_stringify sh (JObject kvs) =
     ''{'' @ joinWith '','' (map (\<lambda>(k, v). quoteJSONString k @ '':'' @ JSON_stringify sh v) kvs) @ ''}''"


definition isWhitespace :: "char \<Rightarrow> bool" where
  "isWhitespace c = (c = CHR 0x20 \<or> c = CHR 0x09 \<or> c = CHR 0x0A \<or> c = CHR 0x0D)"

definition skipWhitespace :: "string \<Rightarrow> string" where
  "skipWhitespace s = dropWhile isWhitespace s"

definition hexValue :: "char \<Rightarrow> nat option" where
  "hexValue c =
     (let n = (of_char c :: nat) in
      if 48 \<le> n \<and> n \<le> 57 then Some (n - 48)
      else if 97 \<le> n \<and> n \<le> 102 then Some (n - 87)
      else if 65 \<le> n \<and> n \<le> 70 then Some (n - 55)
      else None)"

definition hex4 :: "char \<Rightarrow> char \<Rightarrow> char \<Rightarrow> char \<Rightarrow> nat option" where
  "hex4 a b c d =
     (case (hexValue a, hexValue b, hexValue c, hexValue d) of
        (Some x, Some y, Some z, Some w) \<Rightarrow> Some (((x * 16 + y) * 16 + z) * 16 + w)
      | _ \<Rightarrow> None)"

definition utf8 :: "nat \<Rightarrow> string" where
  "utf8 u =
     (if u < 0x80 then [char_of u]
      else if u < 0x800 then [char_of (0xC0 + u div 64), char_of (0x80 + u mod 64)]
      else if u < 0x10000
      then [char_of (0xE0 + u div 4096), char_of (0x80 + u div 64 mod 64),
            char_of (0x80 + u mod 64)]
      else [char_of (0xF0 + u div 262144), char_of (0x80 + u div 4096 mod 64),
            char_of (0x80 + u div 64 mod 64), char_of (0x80 + u mod 64)])"

definition unescape :: "char \<Rightarrow> char option" where
  "unescape c =
     (if c = CHR 0x22 \<or> c = CHR 0x5C \<or> c = CHR ''/'' then Some c
      else if c = CHR ''b'' then Some (CHR 0x08)
      else if c = CHR ''f'' then Some (CHR 0x0C)
      else if c = CHR ''n'' then Some (CHR 0x0A)
      else if c = CHR ''r'' then Some (CHR 0x0D)
      else if c = CHR ''t'' then Some (CHR 0x09)
      else None)"

definition unicodeEscape :: "string \<Rightarrow> (nat \<times> string) option" where
  "unicodeEscape s =
     (case s of
        a # b # c # d # rest \<Rightarrow>
          (case hex4 a b c d of
             None \<Rightarrow> None
           | Some u \<Rightarrow>
               if 0xD800 \<le> u \<and> u < 0xDC00
               then (case rest of
                       bs # lu # a' # b' # c' # d' # rest' \<Rightarrow>
                         (case hex4 a' b' c' d' of
                            Some l \<Rightarrow>
                              if bs = CHR 0x5C \<and> lu = CHR ''u'' \<and> 0xDC00 \<le> l \<and> l < 0xE000
                              then Some (0x10000 + (u - 0xD800) * 1024 + (l - 0xDC00), rest')
                              else Some (u, rest)
                          | None \<Rightarrow> Some (u, rest))
                     | _ \<Rightarrow> Some (u, rest))
               else Some (u, rest))
      | _ \<Rightarrow> None)"

function parseChars :: "string \<Rightarrow> (string \<times> string) option" where
  "parseChars [] = None"
| "parseChars (c # cs) =
     (if c = CHR 0x22 then Some ([], cs)
      else if c = CHR 0x5C then
        (case cs of
           [] \<Rightarrow> None
         | e # rest \<Rightarrow>
             if e = CHR ''u'' then
               (case unicodeEscape rest of
                  None \<Rightarrow> None
                | Some (u, rest') \<Rightarrow>
                    if length rest' < length rest then
                      map_option (\<lambda>(str, r). (utf8 u @ str, r)) (parseChars rest')
                    else None)
             else
               (case unescape e of
                  None \<Rightarrow> None
                | Some ch \<Rightarrow> map_option (\<lambda>(str, r). (ch # str, r)) (parseChars rest)))
      else if (of_char c :: nat) < 32 then None
      else map_option (\<lambda>(str, r). (c # str, r)) (parseChars cs))"
  by pat_completeness auto
termination
  by (relation "measure length") auto

definition isNumberChar :: "char \<Rightarrow> bool" where
  "isNumberChar c = (c \<in> set ''0123456789+-.eE'')"

fun parseValue :: "(string \<Rightarrow> 'n option) \<Rightarrow> nat \<Rightarrow> string \<Rightarrow> ('n json \<times> string) option"
  and parseElements ::
    "(string \<Rightarrow> 'n option) \<Rightarrow> nat \<Rightarrow> string \<Rightarrow> ('n json list \<times> string) option"
  and parseMembers ::
    "(string \<Rightarrow> 'n option) \<Rightarrow> nat \<Rightarrow> string \<Rightarrow> ((string \<times> 'n json) list \<times> string) option"
where
  "parseValue rd 0 s = None"
| "parseValue rd (Suc fuel) s =
     (case skipWhitespace s of
        [] \<Rightarrow> None
      | c # cs \<Rightarrow>
          if c = CHR ''{'' then
            (case skipWhitespace cs of
               [] \<Rightarrow> None
             | d # ds \<Rightarrow>
                 if d = CHR ''}'' then Some (JObject [], ds)
                 else map_option (\<lambda>(kvs, r). (JObject (fold (\<lambda>(k, v) m. assign m k v) kvs []), r))
                        (parseMembers rd fuel cs))
          else if c = CHR ''['' then
            (case skipWhitespace cs of
               [] \<Rightarrow> None
             | d # ds \<Rightarrow>
                 if d = CHR '']'' then Some (JArray [], ds)
                 else map_option (\<lambda>(xs, r). (JArray xs, r)) (parseElements rd fuel cs))
          else if c = CHR 0x22 then
            map_option (\<lambda>(str, r). (JString str, r)) (parseChars cs)
          else if take 4 (c # cs) = ''null'' then Some (JNull, drop 4 (c # cs))
          else if take 4 (c # cs) = ''true'' then Some (JBool True, drop 4 (c # cs))
          else if take 5 (c # cs) = ''false'' then Some (JBool False, drop 5 (c # cs))
          else
            (case rd (takeWhile isNumberChar (c # cs)) of
               None \<Rightarrow> None
             | Some n \<Rightarrow> Some (JNumber n, dropWhile isNumberChar (c # cs))))"
| "parseElements rd 0 s = None"
| "parseElements rd (Suc fuel) s =
     (case parseValue rd fuel s of
        None \<Rightarrow> None
      | Some (x, r) \<Rightarrow>
          (case skipWhitespace r of
             [] \<Rightarrow> None
           | d # ds \<Rightarrow>
               if d = CHR '']'' then Some ([x], ds)
               else if d = CHR '','' then
                 map_option (\<lambda>(xs, r'). (x # xs, r')) (parseElements rd fuel ds)
               else None))"
| "parseMembers rd 0 s = None"
| "parseMembers rd (Suc fuel) s =
     (case skipWhitespace s of
        [] \<Rightarrow> None
      | q # qs \<Rightarrow>
          if q \<noteq> CHR 0x22 then None
          else
            (case parseChars qs of
               None \<Rightarrow> None
             | Some (k, r) \<Rightarrow>
                 (case skipWhitespace r of
                    [] \<Rightarrow> None
                  | colon # r1 \<Rightarrow>
                      if colon \<noteq> CHR '':'' then None
                      else
                        (case parseValue rd fuel r1 of
                           None \<Rightarrow> None
                         | Some (v, r2) \<Rightarrow>
                             (case skipWhitespace r2 of
                                [] \<Rightarrow> None
                              | d # ds \<Rightarrow>
                                  if d = CHR ''}'' then Some ([(k, v)], ds)
                                  else if d = CHR '','' then
                                    map_option (\<lambda>(kvs, r'). ((k, v) # kvs, r'))
                                      (parseMembers rd fuel ds)
                                  else None)))))"

definition JSON_parse :: "(string \<Rightarrow> 'n option) \<Rightarrow> string \<Rightarrow> 'n json option" where
  "JSON_parse rd s =
     (case parseValue rd (Suc (length s)) s of
        None \<Rightarrow> None
      | Some (v, r) \<Rightarrow> if skipWhitespace r = [] then Some v else None)"

text \<open>
  A value that \<^verbatim>\<open>JSON.stringify\<close> prints faithfully: every object has distinct keys (as
  every object of the language has) and every number prints to a literal, made of the
  characters of a number, that reads back as the number.
\<close>

fun serializable :: "(string \<Rightarrow> 'n option) \<Rightarrow> ('n \<Rightarrow> string) \<Rightarrow> 'n json \<Rightarrow> bool" where
  "serializable rd sh (JNumber n) =
     (rd (sh n) = Some n \<and> sh n \<noteq> [] \<and> list_all isNumberChar (sh n))"
| "serializable rd sh (JArray xs) = list_all (serializable rd sh) xs"
| "serializable rd sh (JObject kvs) =
     (distinct (map fst kvs) \<and> list_all (\<lambda>(k, v). serializable rd sh v) kvs)"
| "serializable rd sh v = True"



definition endsLexeme :: "string \<Rightarrow> bool" where
  "endsLexeme rest = (case rest of [] \<Rightarrow> True | c # cs \<Rightarrow> \<not> isNumberChar c)"

subsection \<open>The values of the module as JSON\<close>

text \<open>
  The value \<^verbatim>\<open>{ versions, tags }\<close>, a package config and a registry document as JSON
  values, and a JSON value read at these types. The module only parses text that the
  registry sent as a document or that it printed itself; a value of another shape is
  read as a \<^verbatim>\<open>TypeError\<close>, which is what the first property access on a missing
  member throws. \<^verbatim>\<open>null\<close>, \<^verbatim>\<open>false\<close> and the empty string are the falsy documents.
\<close>

definition versionsAndTagsJSON :: "versionsAndTags \<Rightarrow> 'n json" where
  "versionsAndTagsJSON v =
     JObject [(''versions'', JArray (map JString (versions v))),
              (''tags'', JObject (map (\<lambda>(k, t). (k, JString t)) (tags v)))]"

fun asString :: "'n json \<Rightarrow> string option" where
  "asString (JString s) = Some s"
| "asString v = None"

fun asObject :: "'n json \<Rightarrow> (string \<times> 'n json) list option" where
  "asObject (JObject kvs) = Some kvs"
| "asObject v = None"

definition stringMembers :: "(string \<times> 'n json) list \<Rightarrow> (string \<times> string) list option" where
  "stringMembers kvs = those (map (\<lambda>(k, x). map_option (Pair k) (asString x)) kvs)"

definition objectMembers ::
  "(string \<times> 'n json) list \<Rightarrow> (string \<times> (string \<times> 'n json) list) list option" where
  "objectMembers kvs = those (map (\<lambda>(k, x). map_option (Pair k) (asObject x)) kvs)"

definition versionsAndTagsOfJSON :: "'n json \<Rightarrow> versionsAndTags option" where
  "versionsAndTagsOfJSON j =
     (case j of
        JObject kvs \<Rightarrow>
          (case (map_of kvs ''versions'', map_of kvs ''tags'') of
             (Some (JArray xs), Some (JObject ts)) \<Rightarrow>
               (case (those (map asString xs), stringMembers ts) of
                  (Some vs, Some tg) \<Rightarrow> Some \<lparr>versions = vs, tags = tg\<rparr>
                | _ \<Rightarrow> None)
           | _ \<Rightarrow> None)
      | _ \<Rightarrow> None)"

definition packageInfoOfJSON :: "'n json \<Rightarrow> 'n json packageInfo option" where
  "packageInfoOfJSON j =
     (case j of
        JObject kvs \<Rightarrow>
          (case (map_of kvs ''versions'', map_of kvs ''dist-tags'') of
             (Some (JObject vs), Some (JObject ts)) \<Rightarrow>
               (case (objectMembers vs, stringMembers ts) of
                  (Some docs, Some tg) \<Rightarrow> Some \<lparr>info_versions = docs, dist_tags = tg\<rparr>
                | _ \<Rightarrow> None)
           | _ \<Rightarrow> None)
      | _ \<Rightarrow> None)"

definition falsy :: "'n json \<Rightarrow> bool" where
  "falsy j = (j = JNull \<or> j = JBool False \<or> j = JString [])"

definition unexpectedToken :: error where
  "unexpectedToken = SyntaxError ''Unexpected token in JSON''"

definition notAnObject :: error where
  "notAnObject = TypeError ''Cannot convert undefined or null to object''"

definition jsonParseInfo :: "(string \<Rightarrow> 'n option) \<Rightarrow> string \<Rightarrow> error + 'n json packageInfo option" where
  "jsonParseInfo rd s =
     (case JSON_parse rd s of
        None \<Rightarrow> Inl unexpectedToken
      | Some j \<Rightarrow>
          if falsy j then Inr None
          else (case packageInfoOfJSON j of
                  None \<Rightarrow> Inl notAnObject
                | Some info \<Rightarrow> Inr (Some info)))"

definition jsonStringifyVersionsAndTags :: "('n \<Rightarrow> string) \<Rightarrow> versionsAndTags \<Rightarrow> string" where
  "jsonStringifyVersionsAndTags sh v = JSON_stringify sh (versionsAndTagsJSON v)"

definition jsonParseVersionsAndTags :: "(string \<Rightarrow> 'n option) \<Rightarrow> string \<Rightarrow> error + versionsAndTags" where
  "jsonParseVersionsAndTags rd s =
     (case JSON_parse rd s of
        None \<Rightarrow> Inl unexpectedToken
      | Some j \<Rightarrow>
          (case versionsAndTagsOfJSON j of
             None \<Rightarrow> Inl notAnObject
           | Some v \<Rightarrow> Inr v))"

definition jsonStringifyConfig :: "('n \<Rightarrow> string) \<Rightarrow> 'n json document \<Rightarrow> string" where
  "jsonStringifyConfig sh cfg = JSON_stringify sh (JObject cfg)"

definition jsonParseConfig :: "(string \<Rightarrow> 'n option) \<Rightarrow> string \<Rightarrow> error + 'n json document" where
  "jsonParseConfig rd s =
     (case JSON_parse rd s of
        None \<Rightarrow> Inl unexpectedToken
      | Some j \<Rightarrow>
          (case asObject j of
             None \<Rightarrow> Inl notAnObject
           | Some cfg \<Rightarrow> Inr cfg))"


subsection \<open>A registry to run the module against\<close>

text \<open>
  A small registry: \<^verbatim>\<open>pkg\<close> with three versions, the scoped \<^verbatim>\<open>@scope/pkg\<close> with two,
  \<^verbatim>\<open>stale\<close> whose tag \<^verbatim>\<open>latest\<close> names a version that is not published, \<^verbatim>\<open>broken\<close> that
  the registry answers with status 503, \<^verbatim>\<open>down\<close> for which the connection fails, and
  status 404 for every other URL. Numbers are natural numbers in decimal.
\<close>

definition pkgManifest :: "string \<Rightarrow> string \<Rightarrow> nat json document" where
  "pkgManifest name version =
     [(''name'', JString name),
      (''version'', JString version),
      (''main'', JString ''index.js''),
      (''scripts'', JObject [(''test'', JString ''jest'')]),
      (''files'', JArray [JString ''index.js'']),
      (''dependencies'', JObject []),
      (''_id'', JString (name @ ''@'' @ version)),
      (''_nodeVersion'', JString ''10.0.0''),
      (''dist'', JObject [(''fileCount'', JNumber 3)])]"

definition registryDocument ::
  "string \<Rightarrow> string list \<Rightarrow> (string \<times> string) list \<Rightarrow> nat json" where
  "registryDocument name vs tg =
     JObject [(''name'', JString name),
              (''dist-tags'', JObject (map (\<lambda>(k, t). (k, JString t)) tg)),
              (''versions'', JObject (map (\<lambda>v. (v, JObject (pkgManifest name v))) vs))]"

definition pkgDocument :: "nat json" where
  "pkgDocument =
     registryDocument ''pkg'' [''2.0.0'', ''1.2.0'', ''1.3.0''] [(''latest'', ''2.0.0'')]"

definition scopedDocument :: "nat json" where
  "scopedDocument =
     registryDocument ''@scope/pkg'' [''1.10.0'', ''1.9.0''] [(''latest'', ''1.10.0'')]"

definition staleDocument :: "nat json" where
  "staleDocument = registryDocument ''stale'' [''1.0.0''] [(''latest'', ''9.9.9'')]"

definition sampleGet :: "string \<Rightarrow> error + response" where
  "sampleGet url =
     (if url = ''https://registry.npmjs.org/pkg''
      then Inr \<lparr>statusCode = 200, body = JSON_stringify showNat pkgDocument\<rparr>
      else if url = ''https://registry.npmjs.org/@scope%2Fpkg''
      then Inr \<lparr>statusCode = 200, body = JSON_stringify showNat scopedDocument\<rparr>
      else if url = ''https://registry.npmjs.org/stale''
      then Inr \<lparr>statusCode = 200, body = JSON_stringify showNat staleDocument\<rparr>
      else if url = ''https://registry.npmjs.org/@scope/pkg/-/pkg-1.10.0.tgz''
      then Inr \<lparr>statusCode = 200, body = ''(gzipped tar archive)''\<rparr>
      else if url = ''https://registry.npmjs.org/broken''
      then Inr \<lparr>statusCode = 503, body = ''Service Unavailable''\<rparr>
      else if url = ''https://registry.npmjs.org/down''
      then Inl (Error ''socket hang up'')
      else Inr \<lparr>statusCode = 404, body = ''Not Found''\<rparr>)"

definition sampleEnv :: "nat json env" where
  "sampleEnv =
     \<lparr>npmRegistryURL = ''https://registry.npmjs.org'',
      get = sampleGet,
      parseInfo = jsonParseInfo numericIdentifier,
      stringifyVersionsAndTags = jsonStringifyVersionsAndTags showNat,
      parseVersionsAndTags = jsonParseVersionsAndTags numericIdentifier,
      stringifyConfig = jsonStringifyConfig showNat,
      parseConfig = jsonParseConfig numericIdentifier,
      semverLib = plainSemver\<rparr>"

section \<open>Properties\<close>

subsection \<open>\<^verbatim>\<open>JSON.parse\<close> reads what \<^verbatim>\<open>JSON.stringify\<close> printed\<close>

lemma skipWhitespace_Cons: "\<not> isWhitespace c \<Longrightarrow> skipWhitespace (c # cs) = c # cs"
  by (simp add: skipWhitespace_def)

lemma hexValue_lowerHex_all: "\<forall>d \<in> set [0..<16]. hexValue (lowerHex d) = Some d"
  by code_simp

lemma hexValue_lowerHex: "d < 16 \<Longrightarrow> hexValue (lowerHex d) = Some d"
  using hexValue_lowerHex_all by simp

lemma hexValue_zero: "hexValue CHR ''0'' = Some 0"
  by (simp add: hexValue_def)

lemma unicodeEscape_control:
  assumes "(of_char c :: nat) < 32"
  shows "unicodeEscape (CHR ''0'' # CHR ''0'' # lowerHex ((of_char c :: nat) div 16)
           # lowerHex ((of_char c :: nat) mod 16) # rest) = Some (of_char c, rest)"
proof -
  have "(of_char c :: nat) div 16 < 16"
    using assms by simp
  then have "hex4 CHR ''0'' CHR ''0'' (lowerHex ((of_char c :: nat) div 16))
          (lowerHex ((of_char c :: nat) mod 16)) = Some (of_char c)"
    by (simp add: hex4_def hexValue_zero hexValue_lowerHex)
  then show ?thesis
    using assms by (simp add: unicodeEscape_def)
qed

lemma utf8_ascii: "(of_char c :: nat) < 128 \<Longrightarrow> utf8 (of_char c) = [c]"
  by (simp add: utf8_def)

lemma parseChars_quoteChar:
  assumes "parseChars rest = Some (str, r)"
  shows "parseChars (quoteChar c @ rest) = Some (c # str, r)"
proof -
  consider "c = CHR 0x22" | "c = CHR 0x5C" | "c = CHR 0x08" | "c = CHR 0x0C" | "c = CHR 0x0A"
    | "c = CHR 0x0D" | "c = CHR 0x09"
    | "c \<noteq> CHR 0x22" "c \<noteq> CHR 0x5C" "c \<noteq> CHR 0x08" "c \<noteq> CHR 0x0C" "c \<noteq> CHR 0x0A"
      "c \<noteq> CHR 0x0D" "c \<noteq> CHR 0x09" "(of_char c :: nat) < 32"
    | "c \<noteq> CHR 0x22" "c \<noteq> CHR 0x5C" "\<not> (of_char c :: nat) < 32"
    by blast
  then show ?thesis
  proof cases
    case 8
    then show ?thesis
      using assms unicodeEscape_control [of c rest] utf8_ascii [of c]
      by (simp add: quoteChar_def)
  next
    case 9
    then have "quoteChar c = [c]"
      by (auto simp: quoteChar_def)
    with 9 assms show ?thesis
      by simp
  qed (use assms in \<open>simp_all add: quoteChar_def unescape_def\<close>)
qed

lemma parseChars_quoted:
  "parseChars (concat (map quoteChar s) @ CHR 0x22 # rest) = Some (s, rest)"
  by (induction s) (simp_all add: parseChars_quoteChar)

lemma quoteJSONString_Cons:
  "quoteJSONString s @ rest = CHR 0x22 # concat (map quoteChar s) @ CHR 0x22 # rest"
  by (simp add: quoteJSONString_def)

lemma fold_assign_distinct:
  "distinct (map fst (acc @ kvs)) \<Longrightarrow> fold (\<lambda>(k, v) m. assign m k v) kvs acc = acc @ kvs"
proof (induction kvs arbitrary: acc)
  case Nil
  then show ?case by simp
next
  case (Cons kv kvs)
  obtain k v where kv: "kv = (k, v)"
    by (cases kv)
  have fresh: "k \<notin> fst ` set acc"
    using Cons.prems kv by auto
  have "assign acc k v = acc @ [(k, v)]"
    using fresh by (induction acc) auto
  then show ?case
    using Cons.IH [of "acc @ [(k, v)]"] Cons.prems kv by simp
qed

lemma stringify_nonempty: "serializable rd sh v \<Longrightarrow> JSON_stringify sh v \<noteq> []"
  by (cases v) (auto simp: quoteJSONString_def)

lemma parseValue_number:
  assumes "rd (sh n) = Some n" and "sh n \<noteq> []" and "list_all isNumberChar (sh n)"
    and "endsLexeme rest"
  shows "parseValue rd (Suc fuel) (sh n @ rest) = Some (JNumber n, rest)"
proof -
  obtain c cs where lex: "sh n = c # cs"
    using assms(2) by (cases "sh n") auto
  have c: "isNumberChar c" and cs: "list_all isNumberChar cs"
    using assms(3) lex by simp_all
  from c have nows: "\<not> isWhitespace c"
    and other: "c \<noteq> CHR ''{''" "c \<noteq> CHR ''[''" "c \<noteq> CHR 0x22"
      "c \<noteq> CHR ''n''" "c \<noteq> CHR ''t''" "c \<noteq> CHR ''f''"
    by (auto simp: isNumberChar_def isWhitespace_def)
  have tw: "takeWhile isNumberChar (cs @ rest) = cs"
    and dw: "dropWhile isNumberChar (cs @ rest) = rest"
    using cs assms(4)
    by (auto simp: endsLexeme_def takeWhile_append dropWhile_append list_all_iff
        split: list.splits)
  have "parseValue rd (Suc fuel) (c # cs @ rest) = Some (JNumber n, rest)"
    using nows other c tw dw assms(1) lex by (simp add: skipWhitespace_Cons)
  then show ?thesis
    using lex by simp
qed

lemma parseElements_join:
  assumes IH: "\<And>x fuel rest. x \<in> set xs \<Longrightarrow> length (st x) < fuel \<Longrightarrow> endsLexeme rest
                 \<Longrightarrow> parseValue rd fuel (st x @ rest) = Some (x, rest)"
    and ne: "\<And>x. x \<in> set xs \<Longrightarrow> st x \<noteq> []"
    and "xs \<noteq> []"
    and "Suc (length (joinWith '','' (map st xs))) < fuel"
  shows "parseElements rd fuel (joinWith '','' (map st xs) @ CHR '']'' # rest) = Some (xs, rest)"
  using assms
proof (induction xs arbitrary: fuel)
  case Nil
  then show ?case by simp
next
  case (Cons x xs)
  obtain g where fuel: "fuel = Suc g"
    using Cons.prems(4) by (cases fuel) auto
  show ?case
  proof (cases xs)
    case Nil
    have "parseValue rd g (st x @ CHR '']'' # rest) = Some (x, CHR '']'' # rest)"
      using Cons.prems(1) [of x g "CHR '']'' # rest"] Cons.prems(4) fuel Nil
      by (simp add: endsLexeme_def isNumberChar_def)
    then show ?thesis
      using Nil fuel by (simp add: skipWhitespace_Cons isWhitespace_def)
  next
    case (Cons y ys)
    have len: "length (st x) \<ge> 1"
      using Cons.prems(2) [of x] by (cases "st x") auto
    have first: "parseValue rd g (st x @ CHR '','' # joinWith '','' (map st xs) @ CHR '']'' # rest)
        = Some (x, CHR '','' # joinWith '','' (map st xs) @ CHR '']'' # rest)"
      using Cons.prems(1) [of x g] Cons.prems(4) fuel Cons
      by (simp add: endsLexeme_def isNumberChar_def)
    have more: "parseElements rd g (joinWith '','' (map st xs) @ CHR '']'' # rest) = Some (xs, rest)"
    proof (rule Cons.IH)
      show "xs \<noteq> []"
        using Cons by simp
      show "Suc (length (joinWith '','' (map st xs))) < g"
        using Cons.prems(4) fuel Cons len by simp
    qed (use Cons.prems in auto)
    show ?thesis
      using first more Cons fuel by (simp add: skipWhitespace_Cons isWhitespace_def)
  qed
qed

lemma parseMembers_join:
  assumes IH: "\<And>k v fuel rest. (k, v) \<in> set kvs \<Longrightarrow> length (st v) < fuel \<Longrightarrow> endsLexeme rest
                 \<Longrightarrow> parseValue rd fuel (st v @ rest) = Some (v, rest)"
    and ne: "\<And>k v. (k, v) \<in> set kvs \<Longrightarrow> st v \<noteq> []"
    and "kvs \<noteq> []"
    and "Suc (length (joinWith '','' (map (\<lambda>(k, v). quoteJSONString k @ '':'' @ st v) kvs))) < fuel"
  shows "parseMembers rd fuel
           (joinWith '','' (map (\<lambda>(k, v). quoteJSONString k @ '':'' @ st v) kvs) @ CHR ''}'' # rest)
         = Some (kvs, rest)"
  using assms
proof (induction kvs arbitrary: fuel)
  case Nil
  then show ?case by simp
next
  case (Cons kv kvs)
  obtain k v where kv: "kv = (k, v)"
    by (cases kv)
  obtain g where fuel: "fuel = Suc g"
    using Cons.prems(4) by (cases fuel) auto
  let ?m = "\<lambda>(k, v). quoteJSONString k @ '':'' @ st v"
  have key: "\<And>r. parseChars (concat (map quoteChar k) @ CHR 0x22 # r) = Some (k, r)"
    by (rule parseChars_quoted)
  show ?case
  proof (cases kvs)
    case Nil
    have "parseValue rd g (st v @ CHR ''}'' # rest) = Some (v, CHR ''}'' # rest)"
      using Cons.prems(1) [of k v g "CHR ''}'' # rest"] Cons.prems(4) fuel Nil kv
      by (simp add: endsLexeme_def isNumberChar_def)
    then show ?thesis
      using Nil fuel kv key
      by (simp add: skipWhitespace_Cons isWhitespace_def quoteJSONString_def)
  next
    case (Cons kv' kvs')
    have len: "length (st v) \<ge> 1"
      using Cons.prems(2) [of k v] kv by (cases "st v") auto
    have first: "parseValue rd g (st v @ CHR '','' # joinWith '','' (map ?m kvs) @ CHR ''}'' # rest)
        = Some (v, CHR '','' # joinWith '','' (map ?m kvs) @ CHR ''}'' # rest)"
      using Cons.prems(1) [of k v g] Cons.prems(4) fuel Cons kv
      by (simp add: endsLexeme_def isNumberChar_def)
    have more: "parseMembers rd g (joinWith '','' (map ?m kvs) @ CHR ''}'' # rest) = Some (kvs, rest)"
    proof (rule Cons.IH)
      fix k' v' fuel' rest'
      assume "(k', v') \<in> set kvs" "length (st v') < fuel'" "endsLexeme rest'"
      then show "parseValue rd fuel' (st v' @ rest') = Some (v', rest')"
        using Cons.prems(1) [of k' v' fuel' rest'] by simp
    next
      fix k' v'
      assume "(k', v') \<in> set kvs"
      then show "st v' \<noteq> []"
        using Cons.prems(2) [of k' v'] by simp
    next
      show "kvs \<noteq> []"
        using Cons by simp
      show "Suc (length (joinWith '','' (map ?m kvs))) < g"
        using Cons.prems(4) fuel Cons len kv by simp
    qed
    show ?thesis
      using first more Cons fuel kv key
      by (simp add: skipWhitespace_Cons isWhitespace_def quoteJSONString_def)
  qed
qed

lemma stringify_starts:
  assumes "serializable rd sh v"
  shows "\<exists>d ds. JSON_stringify sh v = d # ds \<and> \<not> isWhitespace d \<and> d \<noteq> CHR '']'' \<and> d \<noteq> CHR ''}''"
proof (cases v)
  case (JNumber n)
  then obtain c cs where "sh n = c # cs" "isNumberChar c"
    using assms by (cases "sh n") auto
  then show ?thesis
    using JNumber by (auto simp: isNumberChar_def isWhitespace_def)
qed (auto simp: isWhitespace_def quoteJSONString_def)

lemma joinWith_Cons:
  "joinWith sep (x # xs) = x @ (if xs = [] then [] else sep @ joinWith sep xs)"
  by (cases xs) simp_all

lemma parseValue_stringify:
  "serializable rd sh v \<Longrightarrow> length (JSON_stringify sh v) < fuel \<Longrightarrow> endsLexeme rest
     \<Longrightarrow> parseValue rd fuel (JSON_stringify sh v @ rest) = Some (v, rest)"
proof (induction v arbitrary: fuel rest)
  case JNull
  then obtain g where "fuel = Suc g"
    by (cases fuel) auto
  then show ?case
    by (simp add: skipWhitespace_Cons isWhitespace_def)
next
  case (JBool b)
  then obtain g where "fuel = Suc g"
    by (cases fuel) auto
  then show ?case
    by (simp add: skipWhitespace_Cons isWhitespace_def)
next
  case (JNumber n)
  then obtain g where "fuel = Suc g"
    by (cases fuel) auto
  then show ?case
    using JNumber parseValue_number [of rd sh n rest g] by simp
next
  case (JString s)
  then obtain g where "fuel = Suc g"
    by (cases fuel) auto
  then show ?case
    by (simp add: skipWhitespace_Cons isWhitespace_def quoteJSONString_def parseChars_quoted)
next
  case (JArray xs)
  then obtain g where fuel: "fuel = Suc g"
    by (cases fuel) auto
  show ?case
  proof (cases xs)
    case Nil
    then show ?thesis
      using fuel by (simp add: skipWhitespace_Cons isWhitespace_def)
  next
    case (Cons y ys)
    have elems: "parseElements rd g (joinWith '','' (map (JSON_stringify sh) xs) @ CHR '']'' # rest)
        = Some (xs, rest)"
    proof (rule parseElements_join)
      fix x fuel' rest'
      assume "x \<in> set xs" "length (JSON_stringify sh x) < fuel'" "endsLexeme rest'"
      then show "parseValue rd fuel' (JSON_stringify sh x @ rest') = Some (x, rest')"
        using JArray.IH [of x fuel' rest'] JArray.prems(1) by (simp add: list_all_iff)
    next
      fix x assume "x \<in> set xs"
      then show "JSON_stringify sh x \<noteq> []"
        using JArray.prems(1) stringify_nonempty [of rd sh x] by (simp add: list_all_iff)
    next
      show "xs \<noteq> []"
        using Cons by simp
      show "Suc (length (joinWith '','' (map (JSON_stringify sh) xs))) < g"
        using JArray.prems(2) fuel by simp
    qed
    obtain d ds where first: "JSON_stringify sh y = d # ds"
      and d: "\<not> isWhitespace d" "d \<noteq> CHR '']''"
      using JArray.prems(1) stringify_starts [of rd sh y] Cons by auto
    obtain tl where whole: "joinWith '','' (map (JSON_stringify sh) xs) @ CHR '']'' # rest = d # tl"
      using first Cons by (simp add: joinWith_Cons)
    show ?thesis
      using elems d fuel unfolding JSON_stringify.simps
      by (simp add: skipWhitespace_Cons isWhitespace_def whole)
  qed
next
  case (JObject kvs)
  then obtain g where fuel: "fuel = Suc g"
    by (cases fuel) auto
  let ?m = "\<lambda>(k, v). quoteJSONString k @ '':'' @ JSON_stringify sh v"
  show ?case
  proof (cases kvs)
    case Nil
    then show ?thesis
      using fuel by (simp add: skipWhitespace_Cons isWhitespace_def)
  next
    case (Cons kv kvs')
    have members: "parseMembers rd g (joinWith '','' (map ?m kvs) @ CHR ''}'' # rest)
        = Some (kvs, rest)"
    proof (rule parseMembers_join)
      fix k v fuel' rest'
      assume "(k, v) \<in> set kvs" "length (JSON_stringify sh v) < fuel'" "endsLexeme rest'"
      then show "parseValue rd fuel' (JSON_stringify sh v @ rest') = Some (v, rest')"
        using JObject.IH [of "(k, v)" v fuel' rest'] JObject.prems(1)
        by (auto simp: list_all_iff)
    next
      fix k v assume "(k, v) \<in> set kvs"
      then show "JSON_stringify sh v \<noteq> []"
        using JObject.prems(1) stringify_nonempty [of rd sh v] by (auto simp: list_all_iff)
    next
      show "kvs \<noteq> []"
        using Cons by simp
      show "Suc (length (joinWith '','' (map ?m kvs))) < g"
        using JObject.prems(2) fuel by simp
    qed
    obtain tl where whole: "joinWith '','' (map ?m kvs) @ CHR ''}'' # rest = CHR 0x22 # tl"
      using Cons by (cases kv) (simp add: joinWith_Cons quoteJSONString_def)
    have "fold (\<lambda>(k, v) m. assign m k v) kvs [] = kvs"
      using fold_assign_distinct [of "[]" kvs] JObject.prems(1) by simp
    then show ?thesis
      using members fuel whole unfolding JSON_stringify.simps
      by (simp add: skipWhitespace_Cons isWhitespace_def)
  qed
qed

lemma JSON_parse_stringify:
  assumes "serializable rd sh v"
  shows "JSON_parse rd (JSON_stringify sh v) = Some v"
  using parseValue_stringify [OF assms, of "Suc (length (JSON_stringify sh v))" "[]"]
  by (simp add: JSON_parse_def endsLexeme_def skipWhitespace_def)

subsection \<open>Strings\<close>







lemma encodeURIComponent_unreserved:
  "list_all uriUnreserved s \<Longrightarrow> encodeURIComponent s = s"
  by (induction s) (auto simp: encodeURIComponent_def)



subsection \<open>The cache\<close>


lemma cacheGet_miss: "fst (cacheGet c k now) = None \<Longrightarrow> cacheGet c k now = (None, c)"
  by (auto simp: cacheGet_def split: option.splits if_splits)







subsection \<open>Sorting by precedence\<close>

lemma byVersion_valid:
  assumes "comparesBy sv valid prec" and "valid a" and "valid b"
  shows "byVersion sv a b = Inr (if prec a b then - 1 else if prec b a then 1 else 0)"
  using assms by (simp add: comparesBy_def byVersion_def)

lemma insertBy_byVersion:
  assumes cmp: "comparesBy sv valid prec" and ord: "precedence valid prec"
    and "valid x" and "\<forall>y \<in> set ys. valid y"
    and "sorted_wrt (\<lambda>a b. \<not> prec b a) ys"
  shows "\<exists>zs. insertBy (byVersion sv) x ys = Inr zs \<and> mset zs = add_mset x (mset ys)
           \<and> sorted_wrt (\<lambda>a b. \<not> prec b a) zs"
  using assms(3-)
proof (induction ys)
  case Nil
  then show ?case by simp
next
  case (Cons y ys)
  have vy: "valid y" and vx: "valid x"
    using Cons.prems by simp_all
  have asym: "prec x y \<Longrightarrow> \<not> prec y x"
    using ord vx vy unfolding precedence_def by blast
  show ?case
  proof (cases "prec y x")
    case False
    then have "insertBy (byVersion sv) x (y # ys) = Inr (x # y # ys)"
      using byVersion_valid [OF cmp vx vy] by simp
    moreover have "\<forall>z \<in> set ys. \<not> prec z x"
    proof
      fix z assume z: "z \<in> set ys"
      then have "valid z" and "\<not> prec z y"
        using Cons.prems by auto
      then show "\<not> prec z x"
        using False ord vx vy unfolding precedence_def by blast
    qed
    ultimately show ?thesis
      using Cons.prems False by auto
  next
    case True
    then have nxy: "\<not> prec x y"
      using asym by blast
    obtain zs where zs: "insertBy (byVersion sv) x ys = Inr zs"
      "mset zs = add_mset x (mset ys)" "sorted_wrt (\<lambda>a b. \<not> prec b a) zs"
      using Cons by auto
    have "insertBy (byVersion sv) x (y # ys) = Inr (y # zs)"
      using byVersion_valid [OF cmp vx vy] True nxy zs(1) by simp
    moreover have "\<forall>z \<in> set zs. \<not> prec z y"
    proof -
      have "set zs = insert x (set ys)"
        using zs(2) by (metis set_mset_add_mset_insert set_mset_mset)
      then show ?thesis
        using Cons.prems nxy by auto
    qed
    ultimately show ?thesis
      using zs by auto
  qed
qed

lemma sortBy_byVersion:
  assumes cmp: "comparesBy sv valid prec" and ord: "precedence valid prec"
    and "\<forall>x \<in> set xs. valid x"
  shows "\<exists>zs. sortBy (byVersion sv) xs = Inr zs \<and> mset zs = mset xs
           \<and> sorted_wrt (\<lambda>a b. \<not> prec b a) zs"
  using assms(3)
proof (induction xs)
  case Nil
  then show ?case by simp
next
  case (Cons x xs)
  then obtain ys where ys: "sortBy (byVersion sv) xs = Inr ys" "mset ys = mset xs"
    "sorted_wrt (\<lambda>a b. \<not> prec b a) ys"
    by auto
  have "\<forall>y \<in> set ys. valid y"
    using Cons.prems ys(2) by (metis list.set_intros(2) mset_eq_setD)
  then obtain zs where "insertBy (byVersion sv) x ys = Inr zs" "mset zs = add_mset x (mset ys)"
    "sorted_wrt (\<lambda>a b. \<not> prec b a) zs"
    using insertBy_byVersion [OF cmp ord, of x ys] Cons.prems ys(3) by auto
  then show ?case
    using ys by simp
qed

subsection \<open>The reference \<^verbatim>\<open>semver\<close> meets the contract\<close>

lemma precedes_irrefl: "\<not> precedes a a"
  by (cases a) auto

lemma precedes_trans: "precedes a b \<Longrightarrow> precedes b c \<Longrightarrow> precedes a c"
  by (cases a; cases b; cases c) auto

lemma precedes_between: "precedes a c \<Longrightarrow> precedes a b \<or> precedes b c"
  by (cases a; cases b; cases c) auto

lemma plain_comparesBy: "comparesBy plainSemver plainValid plainLess"
  by (simp add: comparesBy_def plainSemver_def plainCompare_def)

lemma plain_precedence: "precedence plainValid plainLess"
  unfolding precedence_def plainValid_def plainLess_def
  using precedes_irrefl precedes_trans precedes_between
  by (auto split: option.splits)

lemma plainLess_trans: "plainLess a b \<Longrightarrow> plainLess b c \<Longrightarrow> plainLess a c"
  using precedes_trans by (auto simp: plainLess_def split: option.splits)

lemma plainLess_between:
  "plainLess a c \<Longrightarrow> plainValid b \<Longrightarrow> plainLess a b \<or> plainLess b c"
  using precedes_between by (auto simp: plainLess_def plainValid_def split: option.splits)

lemma plainLess_irrefl: "\<not> plainLess a a"
  using precedes_irrefl by (auto simp: plainLess_def split: option.splits)

lemma plainSatisfies_valid: "plainSatisfies v r \<Longrightarrow> plainValid v"
  by (auto simp: plainSatisfies_def plainValid_def split: option.splits)

lemma fold_maximal:
  assumes "maximalSatisfying plainLess plainSatisfies ps r best"
  shows "maximalSatisfying plainLess plainSatisfies (ps @ vs) r
           (fold (\<lambda>v best.
                    if plainSatisfies v r \<and> (case best of None \<Rightarrow> True | Some m \<Rightarrow> plainLess m v)
                    then Some v else best) vs best)"
  using assms
proof (induction vs arbitrary: ps best)
  case Nil
  then show ?case by simp
next
  case (Cons v vs)
  let ?step = "if plainSatisfies v r \<and> (case best of None \<Rightarrow> True | Some m \<Rightarrow> plainLess m v)
               then Some v else best"
  have "maximalSatisfying plainLess plainSatisfies (ps @ [v]) r ?step"
  proof (cases best)
    case None
    then show ?thesis
      using Cons.prems plainLess_irrefl by (auto simp: maximalSatisfying_def)
  next
    case (Some m)
    show ?thesis
    proof (cases "plainSatisfies v r \<and> plainLess m v")
      case True
      have "\<forall>u \<in> set ps. plainSatisfies u r \<longrightarrow> \<not> plainLess v u"
      proof (intro ballI impI notI)
        fix u assume "u \<in> set ps" "plainSatisfies u r" "plainLess v u"
        then show False
          using Cons.prems Some True plainLess_trans [of m v u]
          by (auto simp: maximalSatisfying_def)
      qed
      then show ?thesis
        using True Some plainLess_irrefl by (auto simp: maximalSatisfying_def)
    next
      case False
      then show ?thesis
        using Cons.prems Some by (auto simp: maximalSatisfying_def)
    qed
  qed
  then show ?case
    using Cons.IH [of "ps @ [v]" ?step] by simp
qed

lemma plain_selectsMax: "selectsMax plainSemver plainValid plainLess plainSatisfies"
proof -
  have "maximalSatisfying plainLess plainSatisfies [] r None" for r
    by (simp add: maximalSatisfying_def)
  then show ?thesis
    using fold_maximal [of "[]" _ None]
    by (simp add: selectsMax_def plainSemver_def plainMaxSatisfying_def)
qed

subsection \<open>The paths through the cache\<close>

lemma getVersionsAndTags_miss:
  assumes "fst (cacheGet c (''versions-'' @ p) now) = None"
  shows "getVersionsAndTags e c now later p =
           (case fetchVersionsAndTags e p of
              Inl err \<Rightarrow> (Inl err, c)
            | Inr None \<Rightarrow> (Inr None, cacheSet c (''versions-'' @ p) notFound (5 * oneMinute) later)
            | Inr (Some v) \<Rightarrow>
                (Inr (Some v),
                 cacheSet c (''versions-'' @ p) (stringifyVersionsAndTags e v) oneMinute later))"
  using cacheGet_miss [OF assms] by (simp add: getVersionsAndTags_def Let_def split: sum.splits option.splits)


lemma getPackageConfig_miss:
  assumes "fst (cacheGet c (''config-'' @ p @ ''-'' @ v) now) = None"
  shows "getPackageConfig e c now later p v =
           (case fetchPackageConfig e p v of
              Inl err \<Rightarrow> (Inl err, c)
            | Inr None \<Rightarrow>
                (Inr None, cacheSet c (''config-'' @ p @ ''-'' @ v) notFound (5 * oneMinute) later)
            | Inr (Some cfg) \<Rightarrow>
                (Inr (Some cfg),
                 cacheSet c (''config-'' @ p @ ''-'' @ v) (stringifyConfig e cfg) oneMinute later))"
  using cacheGet_miss [OF assms] by (simp add: getPackageConfig_def Let_def split: sum.splits option.splits)


lemma fetchPackageInfo_status:
  assumes "get e (infoURL (npmRegistryURL e) p) = Inr res"
  shows "fetchPackageInfo e p =
           (if statusCode res = 200 then parseInfo e (body res)
            else if statusCode res = 404 then Inr None
            else Inl (Error (''Failed to fetch info for '' @ p @ [CHR 0x0A] @ ''status: ''
                   @ showNat (statusCode res) @ [CHR 0x0A] @ ''data: '' @ body res)))"
  using assms by (simp add: fetchPackageInfo_def)

lemma fetchPackageInfo_rejected:
  "get e (infoURL (npmRegistryURL e) p) = Inl err \<Longrightarrow> fetchPackageInfo e p = Inl err"
  by (simp add: fetchPackageInfo_def)

lemma resolveVersion_found:
  assumes "getVersionsAndTags e c now later p = (Inr (Some vt), c')"
  shows "resolveVersion e c now later p rng =
           (let rng' = (case map_of (tags vt) rng of Some target \<Rightarrow> target | None \<Rightarrow> rng)
            in if rng' \<in> set (versions vt) then (Inr (Some rng'), c')
               else (maxSatisfying (semverLib e) (versions vt) rng', c'))"
  using assms by (simp add: resolveVersion_def)

lemma getVersionsAndTags_fresh:
  assumes "fst (cacheGet c (''versions-'' @ p) now) = None"
    and "fetchPackageInfo e p = Inr (Some info)"
  shows "fst (getVersionsAndTags e c now later p)
           = Inr (Some \<lparr>versions = map fst (info_versions info), tags = dist_tags info\<rparr>)"
  using getVersionsAndTags_miss [OF assms(1), of e later] assms(2)
  by (simp add: fetchVersionsAndTags_def)

subsection \<open>Cleaning a package config\<close>

lemma map_of_assign: "map_of (assign m k v) = (map_of m)(k \<mapsto> v)"
  by (induction m) (auto simp: fun_eq_iff)




lemma clean_fold_map_of:
  "map_of (fold (\<lambda>key memo.
                 if \<not> startsWith key ''_'' \<and> key \<notin> set packageConfigExcludeKeys
                 then (case map_of doc key of Some v \<Rightarrow> assign memo key v | None \<Rightarrow> memo)
                 else memo)
              keys acc) k
   = (if k \<in> set keys \<and> keptKey k \<and> map_of doc k \<noteq> None then map_of doc k else map_of acc k)"
proof (induction keys arbitrary: acc)
  case Nil
  then show ?case by simp
next
  case (Cons key keys)
  show ?case
    by (cases "map_of doc key") (auto simp: Cons.IH map_of_assign keptKey_def)
qed

lemma cleanPackageConfig_map_of:
  "map_of (cleanPackageConfig doc) k = (if keptKey k then map_of doc k else None)"
proof -
  have "k \<notin> set (map fst doc) \<Longrightarrow> map_of doc k = None"
    by (simp add: map_of_eq_None_iff)
  then show ?thesis
    unfolding cleanPackageConfig_def clean_fold_map_of by auto
qed

subsection \<open>The sample registry\<close>


lemma sample_serializable:
  "serializable numericIdentifier showNat pkgDocument"
  "serializable numericIdentifier showNat scopedDocument"
  "serializable numericIdentifier showNat staleDocument"
  by code_simp+

lemma sample_parse:
  "JSON_parse numericIdentifier (JSON_stringify showNat pkgDocument) = Some pkgDocument"
  "JSON_parse numericIdentifier (JSON_stringify showNat scopedDocument) = Some scopedDocument"
  "JSON_parse numericIdentifier (JSON_stringify showNat staleDocument) = Some staleDocument"
  by (simp_all add: JSON_parse_stringify sample_serializable)

lemma sample_urls:
  "infoURL (npmRegistryURL sampleEnv) ''pkg'' = ''https://registry.npmjs.org/pkg''"
  "infoURL (npmRegistryURL sampleEnv) ''@scope/pkg'' = ''https://registry.npmjs.org/@scope%2Fpkg''"
  "infoURL (npmRegistryURL sampleEnv) ''stale'' = ''https://registry.npmjs.org/stale''"
  "infoURL (npmRegistryURL sampleEnv) ''broken'' = ''https://registry.npmjs.org/broken''"
  "infoURL (npmRegistryURL sampleEnv) ''down'' = ''https://registry.npmjs.org/down''"
  "infoURL (npmRegistryURL sampleEnv) ''nothing'' = ''https://registry.npmjs.org/nothing''"
  by code_simp+

lemma sample_info:
  "fetchPackageInfo sampleEnv ''pkg''
     = Inr (Some \<lparr>info_versions = [(''2.0.0'', pkgManifest ''pkg'' ''2.0.0''),
                                    (''1.2.0'', pkgManifest ''pkg'' ''1.2.0''),
                                    (''1.3.0'', pkgManifest ''pkg'' ''1.3.0'')],
                   dist_tags = [(''latest'', ''2.0.0'')]\<rparr>)"
  "fetchPackageInfo sampleEnv ''@scope/pkg''
     = Inr (Some \<lparr>info_versions = [(''1.10.0'', pkgManifest ''@scope/pkg'' ''1.10.0''),
                                    (''1.9.0'', pkgManifest ''@scope/pkg'' ''1.9.0'')],
                   dist_tags = [(''latest'', ''1.10.0'')]\<rparr>)"
  "fetchPackageInfo sampleEnv ''stale''
     = Inr (Some \<lparr>info_versions = [(''1.0.0'', pkgManifest ''stale'' ''1.0.0'')],
                   dist_tags = [(''latest'', ''9.9.9'')]\<rparr>)"
  "fetchPackageInfo sampleEnv ''nothing'' = Inr None"
  "fetchPackageInfo sampleEnv ''down'' = Inl (Error ''socket hang up'')"
  "fetchPackageInfo sampleEnv ''broken''
     = Inl (Error (''Failed to fetch info for broken'' @ [CHR 0x0A] @ ''status: 503''
                    @ [CHR 0x0A] @ ''data: Service Unavailable''))"
  by code_simp+

lemma sample_versionsAndTags:
  "fetchVersionsAndTags sampleEnv ''pkg''
     = Inr (Some \<lparr>versions = [''2.0.0'', ''1.2.0'', ''1.3.0''], tags = [(''latest'', ''2.0.0'')]\<rparr>)"
  "fetchVersionsAndTags sampleEnv ''@scope/pkg''
     = Inr (Some \<lparr>versions = [''1.10.0'', ''1.9.0''], tags = [(''latest'', ''1.10.0'')]\<rparr>)"
  "fetchVersionsAndTags sampleEnv ''stale''
     = Inr (Some \<lparr>versions = [''1.0.0''], tags = [(''latest'', ''9.9.9'')]\<rparr>)"
  "fetchVersionsAndTags sampleEnv ''nothing'' = Inr None"
  "fetchVersionsAndTags sampleEnv ''down'' = Inl (Error ''socket hang up'')"
  by (simp_all add: fetchVersionsAndTags_def sample_info)

lemma empty_cache_miss: "fst (cacheGet [] k now) = None"
  by (simp add: cacheGet_def)

lemma sample_versions_valid:
  "\<forall>v \<in> set [''2.0.0'', ''1.2.0'', ''1.3.0'']. plainValid v"
  "\<forall>v \<in> set [''1.10.0'', ''1.9.0'']. plainValid v"
  "\<forall>v \<in> set [''1.0.0'']. plainValid v"
  by code_simp+

lemma sample_getVersionsAndTags:
  "getVersionsAndTags sampleEnv [] 0 5 ''pkg''
     = (Inr (Some \<lparr>versions = [''2.0.0'', ''1.2.0'', ''1.3.0''], tags = [(''latest'', ''2.0.0'')]\<rparr>),
        cacheSet [] ''versions-pkg''
          (stringifyVersionsAndTags sampleEnv
             \<lparr>versions = [''2.0.0'', ''1.2.0'', ''1.3.0''], tags = [(''latest'', ''2.0.0'')]\<rparr>)
          oneMinute 5)"
  "getVersionsAndTags sampleEnv [] 0 5 ''@scope/pkg''
     = (Inr (Some \<lparr>versions = [''1.10.0'', ''1.9.0''], tags = [(''latest'', ''1.10.0'')]\<rparr>),
        cacheSet [] ''versions-@scope/pkg''
          (stringifyVersionsAndTags sampleEnv
             \<lparr>versions = [''1.10.0'', ''1.9.0''], tags = [(''latest'', ''1.10.0'')]\<rparr>)
          oneMinute 5)"
  "getVersionsAndTags sampleEnv [] 0 5 ''stale''
     = (Inr (Some \<lparr>versions = [''1.0.0''], tags = [(''latest'', ''9.9.9'')]\<rparr>),
        cacheSet [] ''versions-stale''
          (stringifyVersionsAndTags sampleEnv
             \<lparr>versions = [''1.0.0''], tags = [(''latest'', ''9.9.9'')]\<rparr>)
          oneMinute 5)"
  "getVersionsAndTags sampleEnv [] 0 5 ''nothing''
     = (Inr None, cacheSet [] ''versions-nothing'' notFound (5 * oneMinute) 5)"
  using getVersionsAndTags_miss [OF empty_cache_miss, where e = sampleEnv and later = 5]
  by (simp_all add: sample_versionsAndTags)

lemma sample_maxSatisfying:
  "maxSatisfying (semverLib sampleEnv) [''2.0.0'', ''1.2.0'', ''1.3.0''] ''^1.2.0''
     = Inr (Some ''1.3.0'')"
  "maxSatisfying (semverLib sampleEnv) [''2.0.0'', ''1.2.0'', ''1.3.0''] ''9.9.9'' = Inr None"
  "maxSatisfying (semverLib sampleEnv) [''1.0.0''] ''9.9.9'' = Inr None"
  by code_simp+

lemma sample_semver: "semverLib sampleEnv = plainSemver"
  by (simp add: sampleEnv_def)

subsection \<open>The values of the module survive the cache\<close>


























section \<open>The claims\<close>

text \<open>
  C1. Let \<open>vt\<close> be the versions and tags that \<^verbatim>\<open>getVersionsAndTags\<close> delivers for the
  package (on a miss with a fetched document: the keys of its \<^verbatim>\<open>versions\<close> and its
  \<^verbatim>\<open>dist-tags\<close>), and let every version string of \<open>vt\<close> be a valid version for
  \<^verbatim>\<open>semver\<close>. Then \<^verbatim>\<open>resolveVersion\<close> returns a result, found in three steps: the
  argument is replaced by the target of the tag of that name, if there is such a tag; if
  the string so obtained is one of the version strings, it is the result, unchanged;
  otherwise the result is what \<^verbatim>\<open>semver.maxSatisfying\<close> gives for it as a range, which
  is a version of the list that satisfies the range and that no satisfying version of the
  list exceeds, or \<^verbatim>\<open>null\<close> if no version satisfies it.
\<close>

theorem resolveVersion_steps:
  assumes "selectsMax (semverLib e) valid prec satisfies"
    and "getVersionsAndTags e c now later p = (Inr (Some vt), c')"
    and "\<forall>v \<in> set (versions vt). valid v"
  shows "(\<exists>r. resolveVersion e c now later p rng = (Inr r, c')
            \<and> (let rng' = (case map_of (tags vt) rng of Some target \<Rightarrow> target | None \<Rightarrow> rng)
               in if rng' \<in> set (versions vt) then r = Some rng'
                  else maxSatisfying (semverLib e) (versions vt) rng' = Inr r
                       \<and> maximalSatisfying prec satisfies (versions vt) rng' r))
       \<and> (fst (cacheGet c (''versions-'' @ p) now) = None \<longrightarrow>
            fetchPackageInfo e p = Inr (Some info) \<longrightarrow>
            vt = \<lparr>versions = map fst (info_versions info), tags = dist_tags info\<rparr>)"
proof (intro conjI impI)
  let ?rng = "case map_of (tags vt) rng of Some target \<Rightarrow> target | None \<Rightarrow> rng"
  obtain m where m: "maxSatisfying (semverLib e) (versions vt) ?rng = Inr m"
    "maximalSatisfying prec satisfies (versions vt) ?rng m"
    using assms(1,3) unfolding selectsMax_def by blast
  show "\<exists>r. resolveVersion e c now later p rng = (Inr r, c')
            \<and> (let rng' = ?rng
               in if rng' \<in> set (versions vt) then r = Some rng'
                  else maxSatisfying (semverLib e) (versions vt) rng' = Inr r
                       \<and> maximalSatisfying prec satisfies (versions vt) rng' r)"
    using resolveVersion_found [OF assms(2), of rng] m by (auto simp: Let_def)
next
  assume "fst (cacheGet c (''versions-'' @ p) now) = None"
    and "fetchPackageInfo e p = Inr (Some info)"
  then show "vt = \<lparr>versions = map fst (info_versions info), tags = dist_tags info\<rparr>"
    using getVersionsAndTags_fresh [of c p now e info later] assms(2) by simp
qed

theorem resolveVersion_steps_witness:
  "fst (resolveVersion sampleEnv [] 0 5 ''pkg'' ''^1.2.0'') = Inr (Some ''1.3.0'')
   \<and> fst (resolveVersion sampleEnv [] 0 5 ''pkg'' ''latest'') = Inr (Some ''2.0.0'')
   \<and> fst (resolveVersion sampleEnv [] 0 5 ''pkg'' ''1.2.0'') = Inr (Some ''1.2.0'')
   \<and> fst (resolveVersion sampleEnv [] 0 5 ''pkg'' ''9.9.9'') = Inr None"
proof -
  let ?vt = "\<lparr>versions = [''2.0.0'', ''1.2.0'', ''1.3.0''], tags = [(''latest'', ''2.0.0'')]\<rparr>"
  have lib: "selectsMax (semverLib sampleEnv) plainValid plainLess plainSatisfies"
    using plain_selectsMax by (simp add: sample_semver)
  have valid: "\<forall>v \<in> set (versions ?vt). plainValid v"
    using sample_versions_valid(1) by simp
  note steps = resolveVersion_steps [OF lib sample_getVersionsAndTags(1) valid]
  have "fst (resolveVersion sampleEnv [] 0 5 ''pkg'' ''^1.2.0'') = Inr (Some ''1.3.0'')"
    using steps [of "''^1.2.0''"] sample_maxSatisfying(1) by (auto simp: Let_def)
  moreover have "fst (resolveVersion sampleEnv [] 0 5 ''pkg'' ''latest'') = Inr (Some ''2.0.0'')"
    using steps [of "''latest''"] by (auto simp: Let_def)
  moreover have "fst (resolveVersion sampleEnv [] 0 5 ''pkg'' ''1.2.0'') = Inr (Some ''1.2.0'')"
    using steps [of "''1.2.0''"] by (auto simp: Let_def)
  moreover have "fst (resolveVersion sampleEnv [] 0 5 ''pkg'' ''9.9.9'') = Inr None"
    using steps [of "''9.9.9''"] sample_maxSatisfying(2) by (auto simp: Let_def)
  ultimately show ?thesis
    by blast
qed

text \<open>
  C2. Let \<open>vt\<close> be the versions and tags that \<^verbatim>\<open>getVersionsAndTags\<close> delivers for the
  package (on a miss with a fetched document, its versions are the keys of the document's
  \<^verbatim>\<open>versions\<close>), and let every version string of \<open>vt\<close> be a valid version for
  \<^verbatim>\<open>semver\<close>. Then \<^verbatim>\<open>getAvailableVersions\<close> returns a list that holds exactly these
  strings, each as often as \<open>vt\<close> does, in non-decreasing precedence: no element of the
  list precedes, by \<^verbatim>\<open>semver\<close>, an element that stands before it. If the package is
  unknown (the registry answers 404, or the cache holds the not-found marker), it returns
  the empty list.
\<close>

theorem availableVersions_sorted:
  assumes "comparesBy (semverLib e) valid prec" and "precedence valid prec"
  shows "(getVersionsAndTags e c now later p = (Inr (Some vt), c') \<longrightarrow>
            (\<forall>v \<in> set (versions vt). valid v) \<longrightarrow>
            (\<exists>vs. getAvailableVersions e c now later p = (Inr vs, c')
                  \<and> mset vs = mset (versions vt)
                  \<and> sorted_wrt (\<lambda>a b. \<not> prec b a) vs))
       \<and> (getVersionsAndTags e c now later p = (Inr None, c') \<longrightarrow>
            getAvailableVersions e c now later p = (Inr [], c'))
       \<and> (fst (cacheGet c (''versions-'' @ p) now) = None \<longrightarrow>
            (fetchPackageInfo e p = Inr (Some info) \<longrightarrow>
               fst (getVersionsAndTags e c now later p)
                 = Inr (Some \<lparr>versions = map fst (info_versions info), tags = dist_tags info\<rparr>))
            \<and> (fetchPackageInfo e p = Inr None \<longrightarrow>
               fst (getVersionsAndTags e c now later p) = Inr None))"
proof (intro conjI impI)
  assume got: "getVersionsAndTags e c now later p = (Inr (Some vt), c')"
    and valid: "\<forall>v \<in> set (versions vt). valid v"
  obtain vs where "sortBy (byVersion (semverLib e)) (versions vt) = Inr vs"
    "mset vs = mset (versions vt)" "sorted_wrt (\<lambda>a b. \<not> prec b a) vs"
    using sortBy_byVersion [OF assms valid] by blast
  then show "\<exists>vs. getAvailableVersions e c now later p = (Inr vs, c')
                  \<and> mset vs = mset (versions vt)
                  \<and> sorted_wrt (\<lambda>a b. \<not> prec b a) vs"
    using got by (simp add: getAvailableVersions_def)
next
  assume "getVersionsAndTags e c now later p = (Inr None, c')"
  then show "getAvailableVersions e c now later p = (Inr [], c')"
    by (simp add: getAvailableVersions_def)
next
  assume miss: "fst (cacheGet c (''versions-'' @ p) now) = None"
  {
    assume "fetchPackageInfo e p = Inr (Some info)"
    then show "fst (getVersionsAndTags e c now later p)
        = Inr (Some \<lparr>versions = map fst (info_versions info), tags = dist_tags info\<rparr>)"
      by (rule getVersionsAndTags_fresh [OF miss])
  }
  {
    assume "fetchPackageInfo e p = Inr None"
    then show "fst (getVersionsAndTags e c now later p) = Inr None"
      using getVersionsAndTags_miss [OF miss, of e later]
      by (simp add: fetchVersionsAndTags_def)
  }
qed

theorem availableVersions_sorted_witness:
  "fst (getAvailableVersions sampleEnv [] 0 5 ''@scope/pkg'') = Inr [''1.9.0'', ''1.10.0'']
   \<and> sorted_wrt (\<lambda>a b. \<not> plainLess b a) [''1.9.0'', ''1.10.0'']
   \<and> mset [''1.9.0'', ''1.10.0''] = mset [''1.10.0'', ''1.9.0'']
   \<and> fst (getAvailableVersions sampleEnv [] 0 5 ''nothing'') = Inr []"
proof -
  let ?vt = "\<lparr>versions = [''1.10.0'', ''1.9.0''], tags = [(''latest'', ''1.10.0'')]\<rparr>"
  let ?c = "cacheSet [] ''versions-@scope/pkg'' (stringifyVersionsAndTags sampleEnv ?vt)
              oneMinute 5"
  have lib: "comparesBy (semverLib sampleEnv) plainValid plainLess"
    using plain_comparesBy by (simp add: sample_semver)
  have valid: "\<forall>v \<in> set (versions ?vt). plainValid v"
    using sample_versions_valid(2) by simp
  note sorted = availableVersions_sorted [OF lib plain_precedence]
  have "\<exists>vs. getAvailableVersions sampleEnv [] 0 5 ''@scope/pkg'' = (Inr vs, ?c)
          \<and> mset vs = mset (versions ?vt) \<and> sorted_wrt (\<lambda>a b. \<not> plainLess b a) vs"
    using sorted [where c = "[]" and now = 0 and later = 5 and p = "''@scope/pkg''"
        and vt = ?vt and c' = ?c] sample_getVersionsAndTags(2) valid
    by blast
  then obtain vs where vs: "getAvailableVersions sampleEnv [] 0 5 ''@scope/pkg'' = (Inr vs, ?c)"
    "mset vs = mset [''1.10.0'', ''1.9.0'']" "sorted_wrt (\<lambda>a b. \<not> plainLess b a) vs"
    by auto
  have run: "sortBy (byVersion (semverLib sampleEnv)) [''1.10.0'', ''1.9.0'']
      = Inr [''1.9.0'', ''1.10.0'']"
    by code_simp
  have "getAvailableVersions sampleEnv [] 0 5 ''@scope/pkg'' = (Inr [''1.9.0'', ''1.10.0''], ?c)"
    using sample_getVersionsAndTags(2) run by (simp add: getAvailableVersions_def)
  then have "vs = [''1.9.0'', ''1.10.0'']"
    using vs(1) by simp
  moreover have "fst (getAvailableVersions sampleEnv [] 0 5 ''nothing'') = Inr []"
    using sorted [where c = "[]" and now = 0 and later = 5 and p = "''nothing''"
        and c' = "cacheSet [] ''versions-nothing'' notFound (5 * oneMinute) 5"]
      sample_getVersionsAndTags(4)
    by simp
  ultimately show ?thesis
    using vs by simp
qed

text \<open>
  C3 as stated fails where the tag names a version that is not in the list: the package
  \<^verbatim>\<open>stale\<close> has the one version \<^verbatim>\<open>1.0.0\<close> and the tag \<^verbatim>\<open>latest\<close> for \<^verbatim>\<open>9.9.9\<close>, and
  \<^verbatim>\<open>resolveVersion\<close> returns \<^verbatim>\<open>null\<close> for \<^verbatim>\<open>latest\<close>, not \<^verbatim>\<open>9.9.9\<close>.
\<close>

theorem latest_not_in_versions_resolves_to_null:
  "fetchVersionsAndTags sampleEnv ''stale''
     = Inr (Some \<lparr>versions = [''1.0.0''], tags = [(''latest'', ''9.9.9'')]\<rparr>)
   \<and> fst (resolveVersion sampleEnv [] 0 5 ''stale'' ''latest'') = Inr None
   \<and> fst (resolveVersion sampleEnv [] 0 5 ''stale'' ''latest'') \<noteq> Inr (Some ''9.9.9'')"
proof -
  have "fst (resolveVersion sampleEnv [] 0 5 ''stale'' ''latest'') = Inr None"
    using sample_getVersionsAndTags(3) sample_maxSatisfying(3)
    by (simp add: resolveVersion_def)
  then show ?thesis
    using sample_versionsAndTags(3) by simp
qed

text \<open>
  C3, as the code has it. Let \<open>vt\<close> be the versions and tags that
  \<^verbatim>\<open>getVersionsAndTags\<close> delivers for the package, every version string of it a valid
  version for \<^verbatim>\<open>semver\<close>, and let its tags assign \<open>target\<close> to \<^verbatim>\<open>latest\<close>. If \<open>target\<close> is one of the
  version strings, \<^verbatim>\<open>resolveVersion\<close> returns exactly \<open>target\<close> for \<^verbatim>\<open>latest\<close>. If it is
  not, \<open>target\<close> is read as a range: the result is the version that
  \<^verbatim>\<open>semver.maxSatisfying\<close> selects from the list for it, or \<^verbatim>\<open>null\<close>, and so it is not
  \<open>target\<close>.
\<close>

theorem latest_resolves_to_listed_target:
  assumes "selectsMax (semverLib e) valid prec satisfies"
    and "getVersionsAndTags e c now later p = (Inr (Some vt), c')"
    and "\<forall>v \<in> set (versions vt). valid v"
    and "map_of (tags vt) ''latest'' = Some target"
  shows "(target \<in> set (versions vt) \<longrightarrow>
            resolveVersion e c now later p ''latest'' = (Inr (Some target), c'))
       \<and> (target \<notin> set (versions vt) \<longrightarrow>
            (\<exists>r. resolveVersion e c now later p ''latest'' = (Inr r, c')
                 \<and> maxSatisfying (semverLib e) (versions vt) target = Inr r
                 \<and> maximalSatisfying prec satisfies (versions vt) target r
                 \<and> r \<noteq> Some target))"
proof (intro conjI impI)
  assume "target \<in> set (versions vt)"
  then show "resolveVersion e c now later p ''latest'' = (Inr (Some target), c')"
    using resolveVersion_found [OF assms(2), of "''latest''"] assms(4) by simp
next
  assume absent: "target \<notin> set (versions vt)"
  obtain m where m: "maxSatisfying (semverLib e) (versions vt) target = Inr m"
    "maximalSatisfying prec satisfies (versions vt) target m"
    using assms(1,3) unfolding selectsMax_def by blast
  have "m \<noteq> Some target"
    using m(2) absent by (auto simp: maximalSatisfying_def)
  then show "\<exists>r. resolveVersion e c now later p ''latest'' = (Inr r, c')
                 \<and> maxSatisfying (semverLib e) (versions vt) target = Inr r
                 \<and> maximalSatisfying prec satisfies (versions vt) target r
                 \<and> r \<noteq> Some target"
    using resolveVersion_found [OF assms(2), of "''latest''"] assms(4) absent m by simp
qed

theorem latest_resolves_to_listed_target_witness:
  "fst (resolveVersion sampleEnv [] 0 5 ''pkg'' ''latest'') = Inr (Some ''2.0.0'')
   \<and> fst (resolveVersion sampleEnv [] 0 5 ''stale'' ''latest'') = Inr None"
proof -
  have lib: "selectsMax (semverLib sampleEnv) plainValid plainLess plainSatisfies"
    using plain_selectsMax by (simp add: sample_semver)
  have "fst (resolveVersion sampleEnv [] 0 5 ''pkg'' ''latest'') = Inr (Some ''2.0.0'')"
    using latest_resolves_to_listed_target [OF lib sample_getVersionsAndTags(1), of "''2.0.0''"]
      sample_versions_valid(1)
    by simp
  moreover have "fst (resolveVersion sampleEnv [] 0 5 ''stale'' ''latest'') = Inr None"
    using latest_resolves_to_listed_target [OF lib sample_getVersionsAndTags(3), of "''9.9.9''"]
      sample_versions_valid(3) sample_maxSatisfying(3)
    by auto
  ultimately show ?thesis
    by blast
qed

text \<open>
  C4. When the registry answers the metadata request, \<^verbatim>\<open>fetchPackageInfo\<close> returns what
  \<^verbatim>\<open>JSON.parse\<close> makes of the body for status 200, returns \<^verbatim>\<open>null\<close> without an error for
  status 404, and for every other status throws an error whose message holds the status
  code in decimal and the text of the body; in that case the result is no value, so
  never \<^verbatim>\<open>null\<close>.
\<close>

theorem metadata_fetch_by_status:
  assumes "get e (infoURL (npmRegistryURL e) p) = Inr res"
  shows "(statusCode res = 200 \<longrightarrow> fetchPackageInfo e p = parseInfo e (body res))
       \<and> (statusCode res = 404 \<longrightarrow> fetchPackageInfo e p = Inr None)
       \<and> (statusCode res \<noteq> 200 \<longrightarrow> statusCode res \<noteq> 404 \<longrightarrow>
            fetchPackageInfo e p
              = Inl (Error (''Failed to fetch info for '' @ p @ [CHR 0x0A] @ ''status: ''
                      @ showNat (statusCode res) @ [CHR 0x0A] @ ''data: '' @ body res))
            \<and> (\<forall>r. fetchPackageInfo e p \<noteq> Inr r))"
  using fetchPackageInfo_status [OF assms] by simp

theorem metadata_fetch_by_status_witness:
  "fetchPackageInfo sampleEnv ''broken''
     = Inl (Error (''Failed to fetch info for broken'' @ [CHR 0x0A] @ ''status: 503''
                    @ [CHR 0x0A] @ ''data: Service Unavailable''))
   \<and> fetchPackageInfo sampleEnv ''nothing'' = Inr None
   \<and> fetchPackageInfo sampleEnv ''pkg''
     = parseInfo sampleEnv (JSON_stringify showNat pkgDocument)"
proof -
  have answers:
    "get sampleEnv (infoURL (npmRegistryURL sampleEnv) ''broken'')
       = Inr \<lparr>statusCode = 503, body = ''Service Unavailable''\<rparr>"
    "get sampleEnv (infoURL (npmRegistryURL sampleEnv) ''nothing'')
       = Inr \<lparr>statusCode = 404, body = ''Not Found''\<rparr>"
    "get sampleEnv (infoURL (npmRegistryURL sampleEnv) ''pkg'')
       = Inr \<lparr>statusCode = 200, body = JSON_stringify showNat pkgDocument\<rparr>"
    by code_simp+
  have digits: "showNat 503 = ''503''"
    by code_simp
  show ?thesis
    using metadata_fetch_by_status [OF answers(1)] metadata_fetch_by_status [OF answers(2)]
      metadata_fetch_by_status [OF answers(3)] digits
    by simp
qed



text \<open>
  C6. The mapping that \<^verbatim>\<open>getPackageConfig\<close> derives from a version's sub-document holds
  no key that starts with \<open>_\<close> and no key of the list \<^verbatim>\<open>browserify\<close>, \<^verbatim>\<open>bugs\<close>,
  \<^verbatim>\<open>directories\<close>, \<^verbatim>\<open>engines\<close>, \<^verbatim>\<open>files\<close>, \<^verbatim>\<open>homepage\<close>, \<^verbatim>\<open>keywords\<close>, \<^verbatim>\<open>maintainers\<close>,
  \<^verbatim>\<open>scripts\<close>; every other key of the sub-document is there with the value it had.
  This mapping is what \<^verbatim>\<open>getPackageConfig\<close> returns when it has fetched the document.
\<close>

theorem config_keys_filtered:
  "map_of (cleanPackageConfig doc) k
     = (if startsWith k ''_''
           \<or> k \<in> set [''browserify'', ''bugs'', ''directories'', ''engines'', ''files'',
                       ''homepage'', ''keywords'', ''maintainers'', ''scripts'']
        then None else map_of doc k)
   \<and> (fst (cacheGet c (''config-'' @ p @ ''-'' @ v) now) = None \<longrightarrow>
        fetchPackageInfo e p = Inr (Some info) \<longrightarrow>
        map_of (info_versions info) v = Some doc \<longrightarrow>
        fst (getPackageConfig e c now later p v) = Inr (Some (cleanPackageConfig doc)))"
proof (intro conjI impI)
  show "map_of (cleanPackageConfig doc) k
     = (if startsWith k ''_''
           \<or> k \<in> set [''browserify'', ''bugs'', ''directories'', ''engines'', ''files'',
                       ''homepage'', ''keywords'', ''maintainers'', ''scripts'']
        then None else map_of doc k)"
    using cleanPackageConfig_map_of [of doc k]
    by (simp add: keptKey_def packageConfigExcludeKeys_def)
next
  assume miss: "fst (cacheGet c (''config-'' @ p @ ''-'' @ v) now) = None"
    and "fetchPackageInfo e p = Inr (Some info)"
    and "map_of (info_versions info) v = Some doc"
  then have "fetchPackageConfig e p v = Inr (Some (cleanPackageConfig doc))"
    by (simp add: fetchPackageConfig_def)
  then show "fst (getPackageConfig e c now later p v) = Inr (Some (cleanPackageConfig doc))"
    using getPackageConfig_miss [OF miss, of e later] by simp
qed

theorem config_keys_filtered_witness:
  "fst (getPackageConfig sampleEnv [] 0 5 ''pkg'' ''1.2.0'')
     = Inr (Some [(''name'', JString ''pkg''),
                  (''version'', JString ''1.2.0''),
                  (''main'', JString ''index.js''),
                  (''dependencies'', JObject []),
                  (''dist'', JObject [(''fileCount'', JNumber 3)])])
   \<and> map_of (cleanPackageConfig (pkgManifest ''pkg'' ''1.2.0'')) ''_id'' = None
   \<and> map_of (cleanPackageConfig (pkgManifest ''pkg'' ''1.2.0'')) ''scripts'' = None
   \<and> map_of (cleanPackageConfig (pkgManifest ''pkg'' ''1.2.0'')) ''main''
     = Some (JString ''index.js'')"
proof -
  have doc: "map_of [(''2.0.0'', pkgManifest ''pkg'' ''2.0.0''),
                     (''1.2.0'', pkgManifest ''pkg'' ''1.2.0''),
                     (''1.3.0'', pkgManifest ''pkg'' ''1.3.0'')] ''1.2.0''
      = Some (pkgManifest ''pkg'' ''1.2.0'')"
    by simp
  have cleaned: "cleanPackageConfig (pkgManifest ''pkg'' ''1.2.0'')
      = [(''name'', JString ''pkg''),
         (''version'', JString ''1.2.0''),
         (''main'', JString ''index.js''),
         (''dependencies'', JObject []),
         (''dist'', JObject [(''fileCount'', JNumber 3)])]"
    by code_simp
  have fields: "map_of (pkgManifest ''pkg'' ''1.2.0'') ''main'' = Some (JString ''index.js'')"
    "\<not> startsWith ''main'' ''_''" "startsWith ''_id'' ''_''"
    by (simp_all add: pkgManifest_def startsWith_def)
  show ?thesis
    using config_keys_filtered [of "pkgManifest ''pkg'' ''1.2.0''" "''_id''" "[]" "''pkg''"
        "''1.2.0''" 0 sampleEnv _ 5]
      config_keys_filtered [of "pkgManifest ''pkg'' ''1.2.0''" "''scripts''"]
      config_keys_filtered [of "pkgManifest ''pkg'' ''1.2.0''" "''main''"]
      sample_info(1) empty_cache_miss doc cleaned fields
    by simp
qed



text \<open>
  C8. When the metadata request fails, by an error of the connection or by a status other
  than 200 and 404, and the cache holds no live entry for the key, then
  \<^verbatim>\<open>getVersionsAndTags\<close>, \<^verbatim>\<open>getAvailableVersions\<close>, \<^verbatim>\<open>resolveVersion\<close> and
  \<^verbatim>\<open>getPackageConfig\<close> return that error to the caller and the cache after the call is the
  cache before it.
\<close>

theorem failures_not_cached:
  assumes "get e (infoURL (npmRegistryURL e) p) = Inl err
         \<or> (\<exists>res. get e (infoURL (npmRegistryURL e) p) = Inr res
                \<and> statusCode res \<noteq> 200 \<and> statusCode res \<noteq> 404
                \<and> err = Error (''Failed to fetch info for '' @ p @ [CHR 0x0A] @ ''status: ''
                           @ showNat (statusCode res) @ [CHR 0x0A] @ ''data: '' @ body res))"
  shows "(fst (cacheGet c (''versions-'' @ p) now) = None \<longrightarrow>
            getVersionsAndTags e c now later p = (Inl err, c)
            \<and> getAvailableVersions e c now later p = (Inl err, c)
            \<and> resolveVersion e c now later p rng = (Inl err, c))
       \<and> (fst (cacheGet c (''config-'' @ p @ ''-'' @ v) now) = None \<longrightarrow>
            getPackageConfig e c now later p v = (Inl err, c))"
proof -
  have failed: "fetchPackageInfo e p = Inl err"
    using assms fetchPackageInfo_rejected [of e p err] fetchPackageInfo_status [of e p]
    by auto
  then have vt: "fetchVersionsAndTags e p = Inl err"
    and cfg: "fetchPackageConfig e p v = Inl err"
    by (simp_all add: fetchVersionsAndTags_def fetchPackageConfig_def)
  show ?thesis
  proof (intro conjI impI)
    assume miss: "fst (cacheGet c (''versions-'' @ p) now) = None"
    show g: "getVersionsAndTags e c now later p = (Inl err, c)"
      using getVersionsAndTags_miss [OF miss, of e later] vt by simp
    show "getAvailableVersions e c now later p = (Inl err, c)"
      using g by (simp add: getAvailableVersions_def)
    show "resolveVersion e c now later p rng = (Inl err, c)"
      using g by (simp add: resolveVersion_def)
  next
    assume miss: "fst (cacheGet c (''config-'' @ p @ ''-'' @ v) now) = None"
    show "getPackageConfig e c now later p v = (Inl err, c)"
      using getPackageConfig_miss [OF miss, of e later] cfg by simp
  qed
qed

theorem failures_not_cached_witness:
  "resolveVersion sampleEnv [] 0 5 ''down'' ''latest'' = (Inl (Error ''socket hang up''), [])
   \<and> getAvailableVersions sampleEnv [] 0 5 ''down'' = (Inl (Error ''socket hang up''), [])
   \<and> getPackageConfig sampleEnv [] 0 5 ''broken'' ''1.0.0''
     = (Inl (Error (''Failed to fetch info for broken'' @ [CHR 0x0A] @ ''status: 503''
                     @ [CHR 0x0A] @ ''data: Service Unavailable'')), [])"
proof -
  let ?err = "Error (''Failed to fetch info for broken'' @ [CHR 0x0A] @ ''status: 503''
                     @ [CHR 0x0A] @ ''data: Service Unavailable'')"
  have down: "get sampleEnv (infoURL (npmRegistryURL sampleEnv) ''down'')
      = Inl (Error ''socket hang up'')"
    and broken: "get sampleEnv (infoURL (npmRegistryURL sampleEnv) ''broken'')
      = Inr \<lparr>statusCode = 503, body = ''Service Unavailable''\<rparr>"
    and digits: "showNat 503 = ''503''"
    by code_simp+
  have unexpected: "\<exists>res. get sampleEnv (infoURL (npmRegistryURL sampleEnv) ''broken'') = Inr res
          \<and> statusCode res \<noteq> 200 \<and> statusCode res \<noteq> 404
          \<and> ?err = Error (''Failed to fetch info for '' @ ''broken'' @ [CHR 0x0A] @ ''status: ''
                      @ showNat (statusCode res) @ [CHR 0x0A] @ ''data: '' @ body res)"
    using broken digits by simp
  have miss: "fst (cacheGet [] (''versions-'' @ ''down'') 0) = None"
    "fst (cacheGet [] (''config-'' @ ''broken'' @ ''-'' @ ''1.0.0'') 0) = None"
    by (rule empty_cache_miss)+
  note at_down = failures_not_cached [of sampleEnv "''down''" "Error ''socket hang up''" "[]" 0
      5 "''latest''" "''1.0.0''", OF disjI1, OF down]
  note at_broken = failures_not_cached [of sampleEnv "''broken''" ?err "[]" 0
      5 "''latest''" "''1.0.0''", OF disjI2, OF unexpected]
  have "resolveVersion sampleEnv [] 0 5 ''down'' ''latest'' = (Inl (Error ''socket hang up''), [])"
    and "getAvailableVersions sampleEnv [] 0 5 ''down'' = (Inl (Error ''socket hang up''), [])"
    using at_down miss(1) by blast+
  moreover have "getPackageConfig sampleEnv [] 0 5 ''broken'' ''1.0.0'' = (Inl ?err, [])"
    using at_broken miss(2) by blast
  ultimately show ?thesis
    by blast
qed






end
